theory Spec2Isabelle
  imports Complex_Main "HOL-Library.Multiset" "HOL-Library.Sublist"
begin

section \<open>Numbers, arrays and sorting\<close>

text \<open>
  The planner is JavaScript. A JavaScript number is modelled as a \<^typ>\<open>real\<close>: the
  rounding of IEEE-754 doubles is idealised away, and the places where the source can
  produce a non-finite value (a division by zero) are written out as separate branches.
  An array is a list. \<^verbatim>\<open>Array.prototype.sort(cmp)\<close> is a stable sort; an element
  \<open>a\<close> stays in front of \<open>b\<close> unless \<open>cmp a b\<close> is positive. It is modelled as a
  stable insertion sort driven by the comparator's numeric result.
\<close>

fun insert_by :: "('a \<Rightarrow> 'a \<Rightarrow> real) \<Rightarrow> 'a \<Rightarrow> 'a list \<Rightarrow> 'a list" where
  "insert_by cmp x [] = [x]"
| "insert_by cmp x (y # ys) =
     (if cmp x y \<le> 0 then x # y # ys else y # insert_by cmp x ys)"

definition array_sort :: "('a \<Rightarrow> 'a \<Rightarrow> real) \<Rightarrow> 'a list \<Rightarrow> 'a list" where
  "array_sort cmp xs = foldr (insert_by cmp) xs []"

text \<open>
  \<^verbatim>\<open>xs.slice(0, k)\<close>: a negative \<open>k\<close> counts from the end of the array.
\<close>

definition slice0 :: "'a list \<Rightarrow> int \<Rightarrow> 'a list" where
  "slice0 xs k = (if 0 \<le> k then take (nat k) xs else take (nat (int (length xs) + k)) xs)"

section \<open>Points of interest\<close>

text \<open>
  Strings are lists of characters and are taken to be ASCII: \<^verbatim>\<open>toLowerCase\<close> maps the
  letters A to Z, \<^verbatim>\<open>trim\<close> removes tab, line feed, vertical tab, form feed, carriage
  return and space from both ends, and \<^verbatim>\<open>includes\<close> is the substring test.
\<close>

definition toLowerChar :: "char \<Rightarrow> char" where
  "toLowerChar c =
     (case map_of (zip ''ABCDEFGHIJKLMNOPQRSTUVWXYZ'' ''abcdefghijklmnopqrstuvwxyz'') c of
        Some l \<Rightarrow> l
      | None \<Rightarrow> c)"

definition toLowerCase :: "string \<Rightarrow> string" where
  "toLowerCase s = map toLowerChar s"

definition isWhitespace :: "char \<Rightarrow> bool" where
  "isWhitespace c \<longleftrightarrow> c \<in> set [CHR 0x09, CHR 0x0A, CHR 0x0B, CHR 0x0C, CHR 0x0D, CHR '' '']"

definition trim :: "string \<Rightarrow> string" where
  "trim s = rev (dropWhile isWhitespace (rev (dropWhile isWhitespace s)))"

fun startsWith :: "string \<Rightarrow> string \<Rightarrow> bool" where
  "startsWith s [] = True"
| "startsWith [] (c # cs) = False"
| "startsWith (x # xs) (c # cs) = (x = c \<and> startsWith xs cs)"

fun includes_sub :: "string \<Rightarrow> string \<Rightarrow> bool" where
  "includes_sub [] sub = (sub = [])"
| "includes_sub (x # xs) sub = (startsWith (x # xs) sub \<or> includes_sub xs sub)"

record poi =
  title :: string
  distanceMeters :: real
  poiLat :: real
  poiLon :: real
  url :: string
  source :: string
  category :: string

text \<open>The key of deduplication, \<^verbatim>\<open>poi.title.toLowerCase().trim()\<close>.\<close>

definition normalizedTitle :: "poi \<Rightarrow> string" where
  "normalizedTitle p = trim (toLowerCase (title p))"

text \<open>
  \<^verbatim>\<open>removeDuplicatePois\<close>, first version of utils.js: a loop over the input that keeps
  the list \<^verbatim>\<open>uniquePois\<close> and the set \<^verbatim>\<open>seenTitles\<close>.
\<close>

fun removeDuplicatePois_loop :: "poi list \<Rightarrow> poi list \<Rightarrow> string set \<Rightarrow> poi list" where
  "removeDuplicatePois_loop [] uniquePois seenTitles = uniquePois"
| "removeDuplicatePois_loop (p # ps) uniquePois seenTitles =
     (let normalizedTitle = normalizedTitle p
      in if normalizedTitle \<notin> seenTitles
         then removeDuplicatePois_loop ps (uniquePois @ [p]) (insert normalizedTitle seenTitles)
         else removeDuplicatePois_loop ps uniquePois seenTitles)"

definition removeDuplicatePois :: "poi list \<Rightarrow> poi list" where
  "removeDuplicatePois pois = removeDuplicatePois_loop pois [] {}"

text \<open>
  \<^verbatim>\<open>removeDuplicatePois\<close>, second version of utils.js: \<^verbatim>\<open>pois.filter\<close> with a
  predicate that reads and extends the set \<^verbatim>\<open>seen\<close>.
\<close>

fun removeDuplicatePois2_filter :: "string set \<Rightarrow> poi list \<Rightarrow> poi list" where
  "removeDuplicatePois2_filter seen [] = []"
| "removeDuplicatePois2_filter seen (p # ps) =
     (let key = normalizedTitle p
      in if key \<in> seen then removeDuplicatePois2_filter seen ps
         else p # removeDuplicatePois2_filter (insert key seen) ps)"

definition removeDuplicatePois2 :: "poi list \<Rightarrow> poi list" where
  "removeDuplicatePois2 pois = removeDuplicatePois2_filter {} pois"

text \<open>
  What \<^verbatim>\<open>fetchPoisSimple\<close> reads from outside: the two providers, which return a
  list or throw (\<open>None\<close>), the successive values of \<^verbatim>\<open>Math.random()\<close>, and the
  conversion of a number to text used in a URL template.
\<close>

record world =
  fetchWikipediaAttractions :: "real \<Rightarrow> real \<Rightarrow> real \<Rightarrow> int \<Rightarrow> poi list option"
  fetchOverpassAttractions :: "real \<Rightarrow> real \<Rightarrow> real \<Rightarrow> int \<Rightarrow> poi list option"
  random :: "nat \<Rightarrow> real"
  numberToString :: "real \<Rightarrow> string"

text \<open>\<^verbatim>\<open>createGenericPois\<close>: three placeholders around the point, tagged \<^verbatim>\<open>'generic'\<close>.\<close>

definition createGenericPois :: "world \<Rightarrow> real \<Rightarrow> real \<Rightarrow> poi list" where
  "createGenericPois w lat lon =
     (let mapsUrl = ''https://www.google.com/maps?q='' @ numberToString w lat @ '','' @ numberToString w lon
      in [\<lparr>title = ''Local Park'', distanceMeters = 0,
           poiLat = lat + (random w 0 - 0.5) * 0.01, poiLon = lon + (random w 1 - 0.5) * 0.01,
           url = mapsUrl, source = ''generic'', category = ''Park''\<rparr>,
          \<lparr>title = ''Historic Site'', distanceMeters = 1000,
           poiLat = lat + (random w 2 - 0.5) * 0.01, poiLon = lon + (random w 3 - 0.5) * 0.01,
           url = mapsUrl, source = ''generic'', category = ''Historic Site''\<rparr>,
          \<lparr>title = ''Local Restaurant'', distanceMeters = 500,
           poiLat = lat + (random w 4 - 0.5) * 0.01, poiLon = lon + (random w 5 - 0.5) * 0.01,
           url = mapsUrl, source = ''generic'', category = ''Food & Drink''\<rparr>])"

text \<open>
  One provider call inside its \<^verbatim>\<open>try\<close>: a non-empty answer is appended to
  \<^verbatim>\<open>pois\<close>, an empty answer or an exception leaves \<^verbatim>\<open>pois\<close> as it is.
\<close>

definition pushFound :: "poi list option \<Rightarrow> poi list \<Rightarrow> poi list" where
  "pushFound answer pois =
     (case answer of
        Some found \<Rightarrow> if length found > 0 then pois @ found else pois
      | None \<Rightarrow> pois)"

text \<open>
  The loop \<^verbatim>\<open>for (const searchRadius of searchRadii)\<close> with its \<^verbatim>\<open>break\<close>. Besides
  \<^verbatim>\<open>pois\<close> the model returns the radii at which the providers were queried, in
  order.
\<close>

fun searchLoop ::
  "world \<Rightarrow> real \<Rightarrow> real \<Rightarrow> int \<Rightarrow> real list \<Rightarrow> real list \<Rightarrow> poi list \<Rightarrow> real list \<times> poi list" where
  "searchLoop w lat lon limit [] queried pois = (queried, pois)"
| "searchLoop w lat lon limit (searchRadius # searchRadii) queried pois =
     (let pois1 = pushFound (fetchWikipediaAttractions w lat lon searchRadius limit) pois;
          pois2 = pushFound (fetchOverpassAttractions w lat lon searchRadius limit) pois1;
          queried' = queried @ [searchRadius]
      in if length pois2 > 0 then (queried', pois2)
         else searchLoop w lat lon limit searchRadii queried' pois2)"

text \<open>The \<^verbatim>\<open>switch\<close> over one preference, on the lower-cased category.\<close>

definition matchesPreference :: "string \<Rightarrow> string \<Rightarrow> bool" where
  "matchesPreference cat pref =
     (if pref = ''outdoor'' then
        includes_sub cat ''park'' \<or> includes_sub cat ''nature'' \<or> includes_sub cat ''outdoor''
      else if pref = ''cultural'' then
        includes_sub cat ''museum'' \<or> includes_sub cat ''historic'' \<or> includes_sub cat ''cultural''
      else if pref = ''entertainment'' then
        includes_sub cat ''entertainment'' \<or> includes_sub cat ''theater''
      else if pref = ''food'' then
        includes_sub cat ''food'' \<or> includes_sub cat ''restaurant''
      else if pref = ''family'' then
        includes_sub cat ''family'' \<or> includes_sub cat ''zoo'' \<or> includes_sub cat ''aquarium''
      else if pref = ''adventure'' then
        includes_sub cat ''adventure'' \<or> includes_sub cat ''sports''
      else True)"

text \<open>The predicate of \<^verbatim>\<open>pois.filter\<close>: some preference matches the POI's category.\<close>

definition preferred :: "string list \<Rightarrow> poi \<Rightarrow> bool" where
  "preferred preferences p =
     (let cat = toLowerCase (category p)
      in list_ex (\<lambda>pref. matchesPreference cat pref) preferences)"

text \<open>
  The block "Filter by preferences if specified", with its fall-back to the unfiltered
  list when the filter leaves nothing.
\<close>

definition filterByPreferences :: "string list \<Rightarrow> poi list \<Rightarrow> poi list" where
  "filterByPreferences preferences pois =
     (if length preferences > 0 then
        (let filteredPois = filter (preferred preferences) pois
         in if length filteredPois = 0 then pois else filteredPois)
      else pois)"

text \<open>
  The POIs gathered before filtering: the provider results of the first radius that
  yields any, else the generic placeholders. The target radius is the constant 16000;
  the parameter \<^verbatim>\<open>radiusMeters\<close> is only logged by the source.
\<close>

definition gatherPois :: "world \<Rightarrow> real \<Rightarrow> real \<Rightarrow> int \<Rightarrow> real list \<times> poi list" where
  "gatherPois w lat lon limit =
     (let targetRadius = 16000;
          searchRadii = [targetRadius, targetRadius * 2, targetRadius * 3];
          (queried, pois) = searchLoop w lat lon limit searchRadii [] []
      in if length pois = 0 then (queried, pois @ createGenericPois w lat lon)
         else (queried, pois))"

text \<open>
  Whether a provider answers a query at the given radius with a non-empty list: the
  condition under which the search loop stops at that radius.
\<close>

definition providersFind :: "world \<Rightarrow> real \<Rightarrow> real \<Rightarrow> int \<Rightarrow> real \<Rightarrow> bool" where
  "providersFind w lat lon limit searchRadius \<longleftrightarrow>
     (case fetchWikipediaAttractions w lat lon searchRadius limit of
        Some found \<Rightarrow> found \<noteq> [] | None \<Rightarrow> False)
     \<or> (case fetchOverpassAttractions w lat lon searchRadius limit of
          Some found \<Rightarrow> found \<noteq> [] | None \<Rightarrow> False)"

text \<open>
  \<^verbatim>\<open>fetchPoisSimple\<close> of utils.js. The one of ui.js differs in two places: it tests
  that each provider is a function before calling it, and it calls the first
  \<^verbatim>\<open>removeDuplicatePois\<close>, which returns the same list as the second. The result is
  the list of radii queried and the returned array.
\<close>

definition fetchPoisSimple ::
  "world \<Rightarrow> real \<Rightarrow> real \<Rightarrow> real \<Rightarrow> int \<Rightarrow> string list \<Rightarrow> real list \<times> poi list" where
  "fetchPoisSimple w lat lon radiusMeters limit preferences =
     (let (queried, pois) = gatherPois w lat lon limit;
          filteredPois = filterByPreferences preferences pois;
          uniquePois = removeDuplicatePois2 filteredPois
      in (queried, slice0 uniquePois limit))"

text \<open>Example data: two spellings of one title, and a world whose providers find nothing.\<close>

definition cityMuseum1 :: poi where
  "cityMuseum1 = \<lparr>title = ''City Museum'', distanceMeters = 1200, poiLat = 40, poiLon = -75,
                   url = ''https://en.wikipedia.org/?curid=1'', source = ''wikipedia'',
                   category = ''Museum''\<rparr>"

definition cityMuseum2 :: poi where
  "cityMuseum2 = \<lparr>title = ''city museum '', distanceMeters = 1250, poiLat = 40, poiLon = -75,
                   url = ''https://www.openstreetmap.org/node/2'', source = ''overpass'',
                   category = ''Museum''\<rparr>"

definition emptyWorld :: world where
  "emptyWorld = \<lparr>fetchWikipediaAttractions = (\<lambda>lat lon radius limit. Some []),
                 fetchOverpassAttractions = (\<lambda>lat lon radius limit. None),
                 random = (\<lambda>k. 0.5),
                 numberToString = (\<lambda>x. ''0'')\<rparr>"

definition museumWorld :: world where
  "museumWorld = \<lparr>fetchWikipediaAttractions = (\<lambda>lat lon radius limit. Some [cityMuseum1]),
                  fetchOverpassAttractions = (\<lambda>lat lon radius limit. Some [cityMuseum2]),
                  random = (\<lambda>k. 0.5),
                  numberToString = (\<lambda>x. ''0'')\<rparr>"

text \<open>A world whose first provider answers only a query at exactly 20 km.\<close>

definition onlyAt20km :: world where
  "onlyAt20km = \<lparr>fetchWikipediaAttractions =
                   (\<lambda>lat lon radius limit. if radius = 20000 then Some [cityMuseum1] else Some []),
                 fetchOverpassAttractions = (\<lambda>lat lon radius limit. Some []),
                 random = (\<lambda>k. 0.5),
                 numberToString = (\<lambda>x. ''0'')\<rparr>"

text \<open>
  A world whose first provider returns two distinct museums, the farther one first.
\<close>

definition artGallery :: poi where
  "artGallery = \<lparr>title = ''Art Gallery'', distanceMeters = 300, poiLat = 40, poiLon = -75,
                  url = ''https://en.wikipedia.org/?curid=3'', source = ''wikipedia'',
                  category = ''Museum''\<rparr>"

definition galleryWorld :: world where
  "galleryWorld = \<lparr>fetchWikipediaAttractions = (\<lambda>lat lon radius limit. Some [cityMuseum1, artGallery]),
                   fetchOverpassAttractions = (\<lambda>lat lon radius limit. Some []),
                   random = (\<lambda>k. 0.5),
                   numberToString = (\<lambda>x. ''0'')\<rparr>"

section \<open>Route geometry\<close>

text \<open>
  \<^verbatim>\<open>Math.atan2(y, x)\<close>, by quadrant. \<^verbatim>\<open>Math.PI\<close> is \<open>pi\<close>.
\<close>

definition atan2 :: "real \<Rightarrow> real \<Rightarrow> real" where
  "atan2 y x =
     (if 0 < x then arctan (y / x)
      else if x < 0 then (if 0 \<le> y then arctan (y / x) + pi else arctan (y / x) - pi)
      else if 0 < y then pi / 2
      else if y < 0 then - (pi / 2)
      else 0)"

text \<open>
  \<^verbatim>\<open>calculateDistance\<close>: the haversine distance in metres between two points given
  in degrees.
\<close>

definition calculateDistance :: "real \<Rightarrow> real \<Rightarrow> real \<Rightarrow> real \<Rightarrow> real" where
  "calculateDistance lat1 lon1 lat2 lon2 =
     (let R = 6371000;
          dLat = (lat2 - lat1) * pi / 180;
          dLon = (lon2 - lon1) * pi / 180;
          a = sin (dLat / 2) * sin (dLat / 2)
              + cos (lat1 * pi / 180) * cos (lat2 * pi / 180) * sin (dLon / 2) * sin (dLon / 2);
          c = 2 * atan2 (sqrt a) (sqrt (1 - a))
      in R * c)"

text \<open>
  The object returned by \<^verbatim>\<open>findClosestPointOnRoute\<close>. Its coordinates are computed
  with a division by the length of a segment; where that length is zero JavaScript
  yields NaN or an infinity, and the coordinate is \<open>None\<close>: not a finite number. The
  fields \<^verbatim>\<open>lat\<close> and \<^verbatim>\<open>lon\<close> are written \<open>pointLat\<close> and \<open>pointLon\<close>, so that
  \<open>lat\<close> and \<open>lon\<close> stay free for the parameters of that name.
\<close>

record routePoint =
  pointLat :: "real option"
  pointLon :: "real option"
  distanceFromStart :: real
  index :: nat

text \<open>\<^verbatim>\<open>a + (b - a) * ratio\<close> with a ratio that may not be finite.\<close>

definition interpolate :: "real \<Rightarrow> real \<Rightarrow> real option \<Rightarrow> real option" where
  "interpolate a b ratio = (case ratio of Some r \<Rightarrow> Some (a + (b - a) * r) | None \<Rightarrow> None)"

text \<open>
  The loop of \<^verbatim>\<open>findClosestPointOnRoute\<close> (second version of utils.js; the first
  returns the same object without \<^verbatim>\<open>index\<close>). A coordinate is a GeoJSON pair
  \<^verbatim>\<open>[lon, lat]\<close>. The loop runs over the pairs of adjacent vertices and returns at
  the first segment whose end is at or beyond the target distance; it falls through to
  \<^verbatim>\<open>return null\<close> when there is none.
\<close>

fun closestPointLoop :: "(real \<times> real) list \<Rightarrow> real \<Rightarrow> nat \<Rightarrow> real \<Rightarrow> routePoint option" where
  "closestPointLoop ((lon1, lat1) # (lon2, lat2) # rest) targetDistance i currentDistance =
     (let segmentDistance = calculateDistance lat1 lon1 lat2 lon2
      in if currentDistance + segmentDistance \<ge> targetDistance then
           let ratio = (if segmentDistance = 0 then None
                        else Some ((targetDistance - currentDistance) / segmentDistance))
           in Some \<lparr>pointLat = interpolate lat1 lat2 ratio,
                    pointLon = interpolate lon1 lon2 ratio,
                    distanceFromStart = targetDistance,
                    index = i\<rparr>
         else closestPointLoop ((lon2, lat2) # rest) targetDistance (i + 1)
                (currentDistance + segmentDistance))"
| "closestPointLoop coordinates targetDistance i currentDistance = None"

definition findClosestPointOnRoute :: "(real \<times> real) list \<Rightarrow> real \<Rightarrow> routePoint option" where
  "findClosestPointOnRoute coordinates targetDistance =
     closestPointLoop coordinates targetDistance 0 0"

text \<open>
  The cumulative distance index of a polyline, for stating what the loop computes:
  the lengths of the segments, the distance from the start to vertex \<open>i\<close>, and the
  length of the whole polyline.
\<close>

fun segmentLengths :: "(real \<times> real) list \<Rightarrow> real list" where
  "segmentLengths ((lon1, lat1) # (lon2, lat2) # rest) =
     calculateDistance lat1 lon1 lat2 lon2 # segmentLengths ((lon2, lat2) # rest)"
| "segmentLengths coordinates = []"

definition cumulative :: "(real \<times> real) list \<Rightarrow> nat \<Rightarrow> real" where
  "cumulative coordinates i = sum_list (take i (segmentLengths coordinates))"

definition polylineLength :: "(real \<times> real) list \<Rightarrow> real" where
  "polylineLength coordinates = sum_list (segmentLengths coordinates)"

text \<open>
  The ratio computed at segment \<open>k\<close> when the loop was entered with the distance
  \<open>cur\<close> already covered.
\<close>

definition segmentRatio :: "real list \<Rightarrow> real \<Rightarrow> real \<Rightarrow> nat \<Rightarrow> real option" where
  "segmentRatio segs cur t k =
     (if segs ! k = 0 then None else Some ((t - (cur + sum_list (take k segs))) / (segs ! k)))"

text \<open>A polyline along the equator, from longitude 0 over 90 to 180 degrees.\<close>

definition equator :: "(real \<times> real) list" where
  "equator = [(0, 0), (90, 0), (180, 0)]"

section \<open>Overnight stop selection\<close>

text \<open>
  An accommodation as \<^verbatim>\<open>findNearbyAccommodations\<close> returns it.
\<close>

record accommodation =
  accName :: string
  accType :: string
  accDistance :: real
  accLat :: real
  accLon :: real
  accUrl :: string

datatype stopType = Overnight | Roadside | Basic

text \<open>
  A stop is a route point spread into a new object together with a display name, the
  full address when reverse geocoding gave one, and its type. An overnight stop adds the
  accommodations found near it and their number; a roadside stop adds its attractions.
\<close>

record namedPoint = routePoint +
  name :: string
  fullAddress :: "string option"
  type :: stopType

record stop = namedPoint +
  accommodations :: "accommodation list"
  accommodationScore :: real

record roadsideStop = namedPoint +
  attractions :: "poi list"

text \<open>
  The comparator handed to \<^verbatim>\<open>overnightStops.sort\<close> by every version of the selector:
  more accommodations first, then closer to the ideal daily distance.
\<close>

definition scoreCompare :: "real \<Rightarrow> stop \<Rightarrow> stop \<Rightarrow> real" where
  "scoreCompare idealDailyDistance a b =
     (let aDistanceScore = \<bar>distanceFromStart a - idealDailyDistance\<bar>;
          bDistanceScore = \<bar>distanceFromStart b - idealDailyDistance\<bar>
      in if accommodationScore a \<noteq> accommodationScore b
         then accommodationScore b - accommodationScore a
         else aDistanceScore - bDistanceScore)"

text \<open>The comparator of the final sort, \<^verbatim>\<open>(a, b) => a.distanceFromStart - b.distanceFromStart\<close>.\<close>

definition distanceCompare :: "stop \<Rightarrow> stop \<Rightarrow> real" where
  "distanceCompare a b = distanceFromStart a - distanceFromStart b"

text \<open>
  \<^verbatim>\<open>selectedStops.some(selected => Math.abs(selected.distanceFromStart -
  stop.distanceFromStart) < gap)\<close>
\<close>

definition tooClose :: "real \<Rightarrow> stop list \<Rightarrow> stop \<Rightarrow> bool" where
  "tooClose gap selectedStops s =
     list_ex (\<lambda>selected. \<bar>distanceFromStart selected - distanceFromStart s\<bar> < gap) selectedStops"

text \<open>
  The body of the loop \<^verbatim>\<open>for (let d = 1; d < days; d++)\<close> of \<^verbatim>\<open>selectOptimalStops\<close>
  and of both \<^verbatim>\<open>selectOvernightStops\<close> of utils.js. The three differ only in the
  tolerance and in the minimum gap, which are parameters here. The first candidate
  within the tolerance that is not too close to a selected stop is pushed; failing that,
  the first stop that is not too close; failing that, nothing.
\<close>

definition pickStop :: "stop list \<Rightarrow> real \<Rightarrow> real \<Rightarrow> real \<Rightarrow> stop list \<Rightarrow> stop list" where
  "pickStop stops targetDistance tolerance gap selectedStops =
     (let candidateStops =
            filter (\<lambda>s. \<bar>distanceFromStart s - targetDistance\<bar> \<le> tolerance
                         \<and> \<not> tooClose gap selectedStops s) stops
      in if length candidateStops > 0 then selectedStops @ [hd candidateStops]
         else (case List.find (\<lambda>s. \<not> tooClose gap selectedStops s) stops of
                 Some closestStop \<Rightarrow> selectedStops @ [closestStop]
               | None \<Rightarrow> selectedStops))"

text \<open>
  Every selector sorts the caller's array in place, so each model returns the array as
  the call leaves it together with the selected stops.

  \<^verbatim>\<open>selectOptimalStops\<close> (utils.js, 40% tolerance, gap of 20%); the duration argument
  is not used by the source.
\<close>

definition selectOptimalStops ::
  "stop list \<Rightarrow> real \<Rightarrow> real \<Rightarrow> int \<Rightarrow> stop list \<times> stop list" where
  "selectOptimalStops accommodationStops idealDailyDistance idealDailyDuration days =
     (let sorted = array_sort (scoreCompare idealDailyDistance) accommodationStops;
          selectedStops =
            fold (\<lambda>d sel. pickStop sorted (idealDailyDistance * of_int d)
                             (idealDailyDistance * 0.4) (idealDailyDistance * 0.2) sel)
                 [1..days - 1] []
      in (sorted, array_sort distanceCompare selectedStops))"

text \<open>
  \<^verbatim>\<open>selectOvernightStops\<close>, first version of utils.js: an early return on an empty
  array, 50% tolerance, gap of 30%.
\<close>

definition selectOvernightStops :: "stop list \<Rightarrow> real \<Rightarrow> int \<Rightarrow> stop list \<times> stop list" where
  "selectOvernightStops overnightStops idealDailyDistance days =
     (if length overnightStops = 0 then (overnightStops, [])
      else
        let sorted = array_sort (scoreCompare idealDailyDistance) overnightStops;
            tolerance = idealDailyDistance * 0.5;
            selectedStops =
              fold (\<lambda>d sel. pickStop sorted (idealDailyDistance * of_int d)
                               tolerance (idealDailyDistance * 0.3) sel)
                   [1..days - 1] []
        in (sorted, array_sort distanceCompare selectedStops))"

text \<open>
  \<^verbatim>\<open>selectOvernightStops\<close>, second version of utils.js: the same text as
  \<^verbatim>\<open>selectOptimalStops\<close>.
\<close>

definition selectOvernightStops2 :: "stop list \<Rightarrow> real \<Rightarrow> int \<Rightarrow> stop list \<times> stop list" where
  "selectOvernightStops2 overnightStops idealDailyDistance days =
     (let sorted = array_sort (scoreCompare idealDailyDistance) overnightStops;
          selectedStops =
            fold (\<lambda>d sel. pickStop sorted (idealDailyDistance * of_int d)
                             (idealDailyDistance * 0.4) (idealDailyDistance * 0.2) sel)
                 [1..days - 1] []
      in (sorted, array_sort distanceCompare selectedStops))"

text \<open>
  \<^verbatim>\<open>selectOvernightStops\<close> of ui.js keeps the best-scoring stop for each target. The
  pair \<^verbatim>\<open>(bestStop, bestScore)\<close> starts as \<^verbatim>\<open>(null, Infinity)\<close>, which is \<open>None\<close>
  here. The score divides by the ideal daily distance: the division is reached only
  with a distance from the target of at most half the ideal distance, so with an ideal
  distance of zero it is \<^verbatim>\<open>0 / 0\<close>, the score is NaN and \<^verbatim>\<open>score < bestScore\<close> is
  false.
\<close>

definition considerStop ::
  "real \<Rightarrow> real \<Rightarrow> stop list \<Rightarrow> stop \<Rightarrow> (stop \<times> real) option \<Rightarrow> (stop \<times> real) option" where
  "considerStop idealDailyDistance targetDistance selectedStops s best =
     (let distanceFromTarget = \<bar>distanceFromStart s - targetDistance\<bar>
      in if distanceFromTarget > idealDailyDistance * 0.5 then best
         else if tooClose (idealDailyDistance * 0.3) selectedStops s then best
         else if idealDailyDistance = 0 then best
         else
           let score = distanceFromTarget / idealDailyDistance - accommodationScore s * 0.1
           in (case best of
                 None \<Rightarrow> Some (s, score)
               | Some (bestStop, bestScore) \<Rightarrow>
                   if score < bestScore then Some (s, score) else best))"

definition pickBest :: "stop list \<Rightarrow> real \<Rightarrow> real \<Rightarrow> stop list \<Rightarrow> stop list" where
  "pickBest stops idealDailyDistance targetDistance selectedStops =
     (case fold (considerStop idealDailyDistance targetDistance selectedStops) stops None of
        Some (bestStop, bestScore) \<Rightarrow> selectedStops @ [bestStop]
      | None \<Rightarrow> selectedStops)"

definition selectOvernightStops_ui :: "stop list \<Rightarrow> real \<Rightarrow> int \<Rightarrow> stop list \<times> stop list" where
  "selectOvernightStops_ui overnightStops idealDailyDistance days =
     (let sorted = array_sort (scoreCompare idealDailyDistance) overnightStops;
          selectedStops =
            fold (\<lambda>d sel. pickBest sorted idealDailyDistance (idealDailyDistance * of_int d) sel)
                 [1..days - 1] []
      in (sorted, selectedStops))"

text \<open>
  The value of \<^verbatim>\<open>selectedStops\<close> when the loop of \<^verbatim>\<open>selectOvernightStops\<close> reaches the
  day boundary \<open>d\<close>, in the first version of utils.js and in ui.js: the loop run over
  the boundaries before \<open>d\<close>.
\<close>

definition selectedBefore :: "stop list \<Rightarrow> real \<Rightarrow> int \<Rightarrow> stop list" where
  "selectedBefore overnightStops idealDailyDistance d =
     fold (\<lambda>d sel. pickStop (array_sort (scoreCompare idealDailyDistance) overnightStops)
                      (idealDailyDistance * of_int d)
                      (idealDailyDistance * 0.5) (idealDailyDistance * 0.3) sel)
          [1..d - 1] []"

definition selectedBefore_ui :: "stop list \<Rightarrow> real \<Rightarrow> int \<Rightarrow> stop list" where
  "selectedBefore_ui overnightStops idealDailyDistance d =
     fold (\<lambda>d sel. pickBest (array_sort (scoreCompare idealDailyDistance) overnightStops)
                      idealDailyDistance (idealDailyDistance * of_int d) sel)
          [1..d - 1] []"

text \<open>
  A candidate is free at the day boundary \<open>d\<close> when it passes the tests under which the
  loop pushes a stop there. In utils.js, where a fallback ignores the tolerance, the only
  test is not to lie within the gap of a stop selected before. In ui.js the candidate
  must also lie within the tolerance of the target, and the ideal daily distance must
  not be zero.
\<close>

definition freeAt :: "stop list \<Rightarrow> real \<Rightarrow> int \<Rightarrow> bool" where
  "freeAt overnightStops idealDailyDistance d =
     list_ex (\<lambda>s. \<not> tooClose (idealDailyDistance * 0.3)
                       (selectedBefore overnightStops idealDailyDistance d) s)
             overnightStops"

definition freeAt_ui :: "stop list \<Rightarrow> real \<Rightarrow> int \<Rightarrow> bool" where
  "freeAt_ui overnightStops idealDailyDistance d =
     list_ex (\<lambda>s. \<bar>distanceFromStart s - idealDailyDistance * of_int d\<bar> \<le> idealDailyDistance * 0.5
                  \<and> \<not> tooClose (idealDailyDistance * 0.3)
                         (selectedBefore_ui overnightStops idealDailyDistance d) s
                  \<and> idealDailyDistance \<noteq> 0)
             overnightStops"

text \<open>
  Two stops are apart by \<open>gap\<close> when the selectors' test
  \<^verbatim>\<open>Math.abs(a.distanceFromStart - b.distanceFromStart) < gap\<close> is false.
\<close>

definition apart :: "real \<Rightarrow> stop \<Rightarrow> stop \<Rightarrow> bool" where
  "apart gap a b \<longleftrightarrow> \<not> \<bar>distanceFromStart a - distanceFromStart b\<bar> < gap"

text \<open>Three candidates of a 300 km route planned over three days.\<close>

definition inn :: accommodation where
  "inn = \<lparr>accName = ''Inn'', accType = ''hotel'', accDistance = 500, accLat = 40, accLon = -75,
           accUrl = ''https://www.openstreetmap.org/node/1''\<rparr>"

definition stopA :: stop where
  "stopA = \<lparr>pointLat = Some 40, pointLon = Some (-75), distanceFromStart = 90000, index = 6,
             name = ''A'', fullAddress = None, type = Overnight,
             accommodations = replicate 2 inn, accommodationScore = 2\<rparr>"

definition stopB :: stop where
  "stopB = \<lparr>pointLat = Some 41, pointLon = Some (-77), distanceFromStart = 210000, index = 14,
             name = ''B'', fullAddress = None, type = Overnight,
             accommodations = replicate 5 inn, accommodationScore = 5\<rparr>"

definition stopC :: stop where
  "stopC = \<lparr>pointLat = Some 40, pointLon = Some (-76), distanceFromStart = 100000, index = 7,
             name = ''C'', fullAddress = None, type = Overnight,
             accommodations = replicate 1 inn, accommodationScore = 1\<rparr>"

section \<open>Sampling the route and assembling the itinerary\<close>

text \<open>
  A route as the routing service returns it: the coordinates of its geometry and its
  distance in metres.
\<close>

record route =
  geometryCoordinates :: "(real \<times> real) list"
  distance :: real

text \<open>A trip pace configuration (\<^verbatim>\<open>TRIP_PACE_CONFIG\<close>, config.js).\<close>

record config =
  maxDailyDrivingHours :: real
  maxRoadsideStops :: int
  minActivityTime :: real
  preferOvernightStops :: bool
  accommodationRadius :: real
  poiRadius :: real
  maxPoisPerStop :: int

definition balanced :: config where
  "balanced = \<lparr>maxDailyDrivingHours = 6, maxRoadsideStops = 3, minActivityTime = 1.5,
                preferOvernightStops = True, accommodationRadius = 8000, poiRadius = 25000,
                maxPoisPerStop = 5\<rparr>"

text \<open>The result of \<^verbatim>\<open>reverseGeocode\<close> when it is not \<^verbatim>\<open>null\<close>.\<close>

record locationInfo =
  locName :: string
  locFullAddress :: string

text \<open>
  The services the planner awaits. Each of the three source functions catches its own
  errors and returns an empty list or \<^verbatim>\<open>null\<close> instead, so none of them throws.
\<close>

record services =
  findNearbyAccommodations :: "real option \<Rightarrow> real option \<Rightarrow> real \<Rightarrow> accommodation list"
  reverseGeocode :: "real option \<Rightarrow> real option \<Rightarrow> locationInfo option"
  fetchRestaurants :: "real option \<Rightarrow> real option \<Rightarrow> real \<Rightarrow> poi list"

text \<open>The decimal digits of a natural number, for the template \<^verbatim>\<open>`Stop ${i}`\<close>.\<close>

fun showNat :: "nat \<Rightarrow> string" where
  "showNat n =
     (if n < 10 then [char_of (48 + n)]
      else showNat (n div 10) @ [char_of (48 + n mod 10)])"

text \<open>
  One iteration of the loop of \<^verbatim>\<open>findOvernightStops\<close> (second version of utils.js),
  which samples 20 points along the route.
\<close>

definition overnightSample :: "services \<Rightarrow> route \<Rightarrow> config \<Rightarrow> nat \<Rightarrow> stop list \<Rightarrow> stop list" where
  "overnightSample sv route config i overnightStops =
     (let samplePoints = 20;
          targetDistance = (distance route / samplePoints) * real i
      in case findClosestPointOnRoute (geometryCoordinates route) targetDistance of
           None \<Rightarrow> overnightStops
         | Some closestPoint \<Rightarrow>
             (let accommodations =
                    findNearbyAccommodations sv (pointLat closestPoint) (pointLon closestPoint)
                      (accommodationRadius config)
              in if length accommodations > 0 then
                   let locationInfo =
                         reverseGeocode sv (pointLat closestPoint) (pointLon closestPoint)
                   in overnightStops @
                        [\<lparr>pointLat = pointLat closestPoint, pointLon = pointLon closestPoint,
                          distanceFromStart = targetDistance, index = index closestPoint,
                          name = (case locationInfo of Some info \<Rightarrow> locName info
                                  | None \<Rightarrow> ''Stop '' @ showNat i),
                          fullAddress = (case locationInfo of Some info \<Rightarrow> Some (locFullAddress info)
                                         | None \<Rightarrow> None),
                          type = Overnight,
                          accommodations = accommodations,
                          accommodationScore = real (length accommodations)\<rparr>]
                 else overnightStops))"

definition findOvernightStops :: "services \<Rightarrow> route \<Rightarrow> config \<Rightarrow> stop list" where
  "findOvernightStops sv route config =
     fold (overnightSample sv route config) [1..<21] []"

text \<open>Whether accommodation is found near a route point.\<close>

definition available :: "services \<Rightarrow> config \<Rightarrow> routePoint \<Rightarrow> bool" where
  "available sv config p \<longleftrightarrow>
     findNearbyAccommodations sv (pointLat p) (pointLon p) (accommodationRadius config) \<noteq> []"

text \<open>
  The candidate of a stop: its point, its distance from the start and the index of the
  segment it was interpolated on.
\<close>

definition candidate :: "stop \<Rightarrow> routePoint" where
  "candidate s = \<lparr>pointLat = pointLat s, pointLon = pointLon s,
                   distanceFromStart = distanceFromStart s, index = index s\<rparr>"

text \<open>
  The two tables named \<^verbatim>\<open>ACTIVITY_TIME_ESTIMATES\<close>, hours by category: the one of
  utils.js, in scope of \<^verbatim>\<open>createSmartItinerary\<close>, and the one of config.js.
\<close>

definition ACTIVITY_TIME_ESTIMATES :: "string \<rightharpoonup> real" where
  "ACTIVITY_TIME_ESTIMATES =
     map_of [(''Museum'', 2.5), (''Zoo/Aquarium'', 3), (''Historic Site'', 1.5),
             (''Historic Building'', 1), (''Entertainment'', 2), (''Nature'', 1),
             (''Outdoor'', 2), (''Cultural'', 2), (''Food & Drink'', 1.5), (''Family'', 2.5),
             (''Adventure'', 3), (''Park'', 1), (''Attraction'', 1.5)]"

definition ACTIVITY_TIME_ESTIMATES_config :: "string \<rightharpoonup> real" where
  "ACTIVITY_TIME_ESTIMATES_config =
     map_of [(''Museum'', 2.5), (''Zoo/Aquarium'', 3), (''Park'', 1.5), (''Historic Site'', 1.5),
             (''Restaurant'', 1), (''Scenic View'', 0.5), (''Entertainment'', 2),
             (''Outdoor Activity'', 2), (''Cultural Site'', 2), (''Food & Drink'', 1),
             (''Family Activity'', 2), (''Adventure'', 3), (''Attraction'', 1.5)]"

text \<open>
  The tables are plain objects, so a lookup also finds the properties every object
  inherits from \<^verbatim>\<open>Object.prototype\<close>. These are their names; the values are functions
  (for \<^verbatim>\<open>__proto__\<close> an object), all truthy.
\<close>

definition objectPrototypeKeys :: "string list" where
  "objectPrototypeKeys =
     [''constructor'', ''__defineGetter__'', ''__defineSetter__'', ''hasOwnProperty'',
      ''__lookupGetter__'', ''__lookupSetter__'', ''isPrototypeOf'', ''propertyIsEnumerable'',
      ''toString'', ''valueOf'', ''__proto__'', ''toLocaleString'']"

text \<open>
  \<^verbatim>\<open>ACTIVITY_TIME_ESTIMATES[attraction.category] || 1\<close>. An entry of the table is a
  number; an entry of 0 is falsy and gives 1. A category that is not in the table gives
  \<^verbatim>\<open>undefined\<close> and so 1, unless it names an inherited property: then the value is
  that property, which is not a number (\<open>None\<close>).
\<close>

definition activityTime :: "(string \<rightharpoonup> real) \<Rightarrow> string \<Rightarrow> real option" where
  "activityTime estimates cat =
     (case estimates cat of
        Some hours \<Rightarrow> Some (if hours = 0 then 1 else hours)
      | None \<Rightarrow> if cat \<in> set objectPrototypeKeys then None else Some 1)"

text \<open>
  \<^verbatim>\<open>+\<close> on a running total: two numbers are added; as soon as one operand is not a
  number the result is a string, which is not a number either.
\<close>

definition jsPlus :: "real option \<Rightarrow> real option \<Rightarrow> real option" where
  "jsPlus a b = (case a of Some x \<Rightarrow> (case b of Some y \<Rightarrow> Some (x + y) | None \<Rightarrow> None) | None \<Rightarrow> None)"

text \<open>The two nested \<^verbatim>\<open>reduce\<close> calls that add up the activity time of a day.\<close>

definition totalActivityTimeOf :: "(string \<rightharpoonup> real) \<Rightarrow> roadsideStop list \<Rightarrow> real option" where
  "totalActivityTimeOf estimates dayRoadsideStops =
     foldl (\<lambda>total s.
              jsPlus total
                (foldl (\<lambda>stopTotal attraction.
                          jsPlus stopTotal (activityTime estimates (category attraction)))
                       (Some 0) (attractions s)))
           (Some 0) dayRoadsideStops"

text \<open>
  \<^verbatim>\<open>totalActivityTime <= maxActivityTime\<close>: a total that is not a number converts to
  NaN, and the comparison is false.
\<close>

definition withinBudget :: "real option \<Rightarrow> real \<Rightarrow> bool" where
  "withinBudget totalHours maxActivityTime =
     (case totalHours of Some hours \<Rightarrow> hours \<le> maxActivityTime | None \<Rightarrow> False)"


definition categorizePoi2 :: "string \<Rightarrow> string" where
  "categorizePoi2 t =
     (let titleLower = toLowerCase t
      in if includes_sub titleLower ''museum'' \<or> includes_sub titleLower ''gallery''
           then ''Museum''
         else if includes_sub titleLower ''park'' \<or> includes_sub titleLower ''garden''
           then ''Park''
         else if includes_sub titleLower ''zoo'' \<or> includes_sub titleLower ''aquarium''
           then ''Zoo/Aquarium''
         else if includes_sub titleLower ''historic'' \<or> includes_sub titleLower ''monument''
                 \<or> includes_sub titleLower ''memorial''
           then ''Historic Site''
         else if includes_sub titleLower ''theater'' \<or> includes_sub titleLower ''theatre''
                 \<or> includes_sub titleLower ''stadium''
           then ''Entertainment''
         else if includes_sub titleLower ''beach'' \<or> includes_sub titleLower ''lake''
                 \<or> includes_sub titleLower ''waterfall''
           then ''Nature''
         else if includes_sub titleLower ''winery'' \<or> includes_sub titleLower ''brewery''
           then ''Food & Drink''
         else if includes_sub titleLower ''castle'' \<or> includes_sub titleLower ''palace''
                 \<or> includes_sub titleLower ''fort''
           then ''Historic Building''
         else ''Attraction'')"

text \<open>
  How an attraction of the application script gets its category: from
  \<^verbatim>\<open>categorizePoi\<close> applied to its title (\<^verbatim>\<open>fetchWikipediaAttractions\<close>,
  \<^verbatim>\<open>fetchOverpassAttractions\<close>), from the three literals of \<^verbatim>\<open>createGenericPois\<close>,
  or from the literal a caller hands to \<^verbatim>\<open>executeOverpassQuery\<close>.
\<close>

definition assignedCategory :: "poi \<Rightarrow> bool" where
  "assignedCategory a \<longleftrightarrow>
     category a = categorizePoi2 (title a)
     \<or> category a \<in> set [''Park'', ''Historic Site'', ''Food & Drink'']
     \<or> category a \<in> set [''Outdoor'', ''Cultural'', ''Entertainment'', ''Food & Drink'',
                           ''Family'', ''Adventure'']"

text \<open>One entry of \<^verbatim>\<open>itineraryDays\<close>.\<close>

record itineraryDay =
  day :: int
  overnightStop :: "stop option"
  roadsideStops :: "roadsideStop list"
  foodOptions :: "poi list"
  totalActivityTime :: "real option"
  drivingTime :: real
  drivingDistance :: real

text \<open>\<^verbatim>\<open>xs[k]\<close>, which is \<^verbatim>\<open>undefined\<close> outside the array.\<close>

definition elementAt :: "'a list \<Rightarrow> int \<Rightarrow> 'a option" where
  "elementAt xs k = (if 0 \<le> k \<and> k < int (length xs) then Some (xs ! nat k) else None)"

text \<open>
  The roadside stops of day \<open>d\<close> before the budget check: those within the day's
  distance band, capped by \<^verbatim>\<open>slice(0, config.maxRoadsideStops)\<close>.
\<close>

definition dayRoadsideStopsOf :: "config \<Rightarrow> real \<Rightarrow> roadsideStop list \<Rightarrow> int \<Rightarrow> roadsideStop list" where
  "dayRoadsideStopsOf config idealDailyDistance allRoadsideStops d =
     (let dayStart = (of_int d - 1) * idealDailyDistance;
          dayEnd = of_int d * idealDailyDistance
      in slice0 (filter (\<lambda>s. distanceFromStart s \<ge> dayStart \<and> distanceFromStart s \<le> dayEnd)
                   allRoadsideStops)
                (maxRoadsideStops config))"

text \<open>
  The body of the loop \<^verbatim>\<open>for (let day = 1; day <= days; day++)\<close> of
  \<^verbatim>\<open>createSmartItinerary\<close> (first version of utils.js), with the table of time
  estimates as a parameter.
\<close>

definition planDay ::
  "services \<Rightarrow> (string \<rightharpoonup> real) \<Rightarrow> config \<Rightarrow> real \<Rightarrow> stop list \<Rightarrow> roadsideStop list \<Rightarrow> int
     \<Rightarrow> itineraryDay" where
  "planDay sv estimates config idealDailyDistance selectedOvernightStops allRoadsideStops d =
     (let dayStart = (of_int d - 1) * idealDailyDistance;
          dayEnd = of_int d * idealDailyDistance;
          overnightStop =
            (case List.find (\<lambda>s. distanceFromStart s \<ge> dayStart \<and> distanceFromStart s \<le> dayEnd)
                    selectedOvernightStops of
               Some s \<Rightarrow> Some s
             | None \<Rightarrow> elementAt selectedOvernightStops (d - 1));
          dayRoadsideStops = dayRoadsideStopsOf config idealDailyDistance allRoadsideStops d;
          dayFoodOptions =
            (case overnightStop of
               Some s \<Rightarrow> fetchRestaurants sv (pointLat s) (pointLon s) 10000
             | None \<Rightarrow> []);
          totalActivityTime = totalActivityTimeOf estimates dayRoadsideStops;
          maxActivityTime = maxDailyDrivingHours config * 0.6;
          feasibleRoadsideStops =
            (if withinBudget totalActivityTime maxActivityTime then dayRoadsideStops
             else slice0 dayRoadsideStops \<lfloor>of_int (maxRoadsideStops config) * (0.7 :: real)\<rfloor>);
          dayDrivingDistance =
            (if d = 1 then
               (case overnightStop of Some s \<Rightarrow> distanceFromStart s | None \<Rightarrow> idealDailyDistance)
             else
               (case overnightStop of
                  Some s \<Rightarrow>
                    distanceFromStart s
                      - (case elementAt selectedOvernightStops (d - 2) of
                           Some previous \<Rightarrow> distanceFromStart previous
                         | None \<Rightarrow> 0)
                | None \<Rightarrow> idealDailyDistance))
      in \<lparr>day = d, overnightStop = overnightStop, roadsideStops = feasibleRoadsideStops,
          foodOptions = dayFoodOptions, totalActivityTime = totalActivityTime,
          drivingTime = maxDailyDrivingHours config, drivingDistance = dayDrivingDistance\<rparr>)"

text \<open>
  One iteration of the loop that builds basic stops when no overnight stop was selected.
  The basic stop of the source has no accommodation fields; the model gives them the
  values of the second version of the source, an empty list and 0.
\<close>

definition basicDay :: "services \<Rightarrow> route \<Rightarrow> real \<Rightarrow> int \<Rightarrow> itineraryDay list \<Rightarrow> itineraryDay list" where
  "basicDay sv route idealDailyDistance d basicItineraryDays =
     (let targetDistance = idealDailyDistance * of_int d
      in case findClosestPointOnRoute (geometryCoordinates route) targetDistance of
           None \<Rightarrow> basicItineraryDays
         | Some closestPoint \<Rightarrow>
             (let locationInfo =
                    reverseGeocode sv (pointLat closestPoint) (pointLon closestPoint);
                  basicStop =
                    \<lparr>pointLat = pointLat closestPoint, pointLon = pointLon closestPoint,
                     distanceFromStart = distanceFromStart closestPoint,
                     index = index closestPoint,
                     name = (case locationInfo of Some info \<Rightarrow> locName info
                             | None \<Rightarrow> ''Stop '' @ showNat (nat d)),
                     fullAddress = (case locationInfo of Some info \<Rightarrow> Some (locFullAddress info)
                                    | None \<Rightarrow> None),
                     type = Basic, accommodations = [], accommodationScore = 0\<rparr>
              in basicItineraryDays @
                   [\<lparr>day = d, overnightStop = Some basicStop, roadsideStops = [],
                     foodOptions = [], totalActivityTime = Some 2, drivingTime = 6,
                     drivingDistance = idealDailyDistance\<rparr>]))"

text \<open>
  \<^verbatim>\<open>createSmartItinerary\<close> (first version of utils.js). The model returns the
  selected overnight stops, the roadside stops kept, and the planned days. The number of
  days is an integer from 1 to 30 (\<^verbatim>\<open>planTrip\<close> clamps it), so the division is by a
  non-zero number.
\<close>

record itinerary =
  itineraryStops :: "stop list"
  itineraryRoadsideStops :: "roadsideStop list"
  itineraryDays :: "itineraryDay list"

definition createSmartItinerary ::
  "services \<Rightarrow> (string \<rightharpoonup> real) \<Rightarrow> route \<Rightarrow> int \<Rightarrow> stop list \<Rightarrow> roadsideStop list \<Rightarrow> config
     \<Rightarrow> itinerary" where
  "createSmartItinerary sv estimates route days overnightStops allRoadsideStops config =
     (let totalDistance = distance route;
          idealDailyDistance = totalDistance / of_int days;
          selectedOvernightStops = snd (selectOvernightStops overnightStops idealDailyDistance days)
      in if length selectedOvernightStops = 0 then
           let basicItineraryDays = fold (basicDay sv route idealDailyDistance) [1..days - 1] []
           in \<lparr>itineraryStops = List.map_filter overnightStop basicItineraryDays,
               itineraryRoadsideStops = [],
               itineraryDays = basicItineraryDays\<rparr>
         else
           let itineraryDays =
                 map (planDay sv estimates config idealDailyDistance selectedOvernightStops
                        allRoadsideStops)
                     [1..days]
           in \<lparr>itineraryStops = selectedOvernightStops,
               itineraryRoadsideStops = concat (map roadsideStops itineraryDays),
               itineraryDays = itineraryDays\<rparr>)"

text \<open>
  Three roadside stops of a first day whose attractions take 2.5, 1.5 and 1 hours, and a
  fourth one further along. Each attraction has the category \<^verbatim>\<open>categorizePoi\<close> of the
  application script gives its title.
\<close>

definition attractionOf :: "string \<Rightarrow> string \<Rightarrow> poi" where
  "attractionOf t c = \<lparr>title = t, distanceMeters = 300, poiLat = 40, poiLon = -75,
                        url = ''https://en.wikipedia.org/?curid=7'', source = ''wikipedia'',
                        category = c\<rparr>"

definition roadsideAt :: "real \<Rightarrow> poi list \<Rightarrow> roadsideStop" where
  "roadsideAt d as = \<lparr>pointLat = Some 40, pointLon = Some (-75), distanceFromStart = d, index = 0,
                       name = ''Attractions Available'', fullAddress = None, type = Roadside,
                       attractions = as\<rparr>"

definition dayOneStops :: "roadsideStop list" where
  "dayOneStops =
     [roadsideAt 20000 [attractionOf ''Rail Museum'' ''Museum''],
      roadsideAt 50000 [attractionOf ''War Memorial'' ''Historic Site''],
      roadsideAt 80000 [attractionOf ''City Park'' ''Park''],
      roadsideAt 150000 [attractionOf ''Old Mill'' ''Attraction'']]"

definition quietServices :: services where
  "quietServices = \<lparr>findNearbyAccommodations = (\<lambda>lat lon radius. []),
                     reverseGeocode = (\<lambda>lat lon. None),
                     fetchRestaurants = (\<lambda>lat lon radius. [])\<rparr>"

text \<open>
  A route along the equator polyline whose reported distance is 12000 km, and two
  services that find accommodation everywhere but disagree on everything else.
\<close>

definition equatorRoute :: route where
  "equatorRoute = \<lparr>geometryCoordinates = equator, distance = 12000000\<rparr>"

definition innServices :: services where
  "innServices = \<lparr>findNearbyAccommodations = (\<lambda>lat lon radius. [inn]),
                   reverseGeocode = (\<lambda>lat lon. None),
                   fetchRestaurants = (\<lambda>lat lon radius. [])\<rparr>"

definition twoInnServices :: services where
  "twoInnServices =
     \<lparr>findNearbyAccommodations = (\<lambda>lat lon radius. [inn, inn]),
      reverseGeocode = (\<lambda>lat lon. Some \<lparr>locName = ''Quito'', locFullAddress = ''Quito, Ecuador''\<rparr>),
      fetchRestaurants = (\<lambda>lat lon radius. [])\<rparr>"

section \<open>Properties of sorting\<close>

lemma mset_insert_by: "mset (insert_by cmp x ys) = add_mset x (mset ys)"
  by (induction ys) auto

lemma mset_array_sort: "mset (array_sort cmp xs) = mset xs"
  unfolding array_sort_def by (induction xs) (auto simp: mset_insert_by)

lemma set_array_sort: "set (array_sort cmp xs) = set xs"
  using mset_array_sort [of cmp xs] by (metis set_mset_mset)

lemma length_array_sort: "length (array_sort cmp xs) = length xs"
  using mset_array_sort [of cmp xs] by (metis size_mset)

lemma sorted_wrt_insert_by:
  assumes total: "\<And>a b. 0 < cmp a b \<Longrightarrow> cmp b a \<le> 0"
    and trans: "\<And>a b c. cmp a b \<le> 0 \<Longrightarrow> cmp b c \<le> 0 \<Longrightarrow> cmp a c \<le> 0"
    and srt: "sorted_wrt (\<lambda>a b. cmp a b \<le> 0) ys"
  shows "sorted_wrt (\<lambda>a b. cmp a b \<le> 0) (insert_by cmp x ys)"
  using srt
proof (induction ys)
  case Nil
  then show ?case by simp
next
  case (Cons y ys)
  show ?case
  proof (cases "cmp x y \<le> 0")
    case True
    have "\<forall>z\<in>set ys. cmp x z \<le> 0"
      using Cons.prems True trans by auto
    with True Cons.prems show ?thesis by simp
  next
    case False
    then have yx: "cmp y x \<le> 0" using total by simp
    have "set (insert_by cmp x ys) = insert x (set ys)"
      using mset_insert_by [of cmp x ys] by (metis set_mset_mset set_mset_add_mset_insert)
    with False yx Cons show ?thesis by auto
  qed
qed

lemma sorted_wrt_array_sort:
  assumes total: "\<And>a b. 0 < cmp a b \<Longrightarrow> cmp b a \<le> 0"
    and trans: "\<And>a b c. cmp a b \<le> 0 \<Longrightarrow> cmp b c \<le> 0 \<Longrightarrow> cmp a c \<le> 0"
  shows "sorted_wrt (\<lambda>a b. cmp a b \<le> 0) (array_sort cmp xs)"
proof (induction xs)
  case Nil
  show ?case by (simp add: array_sort_def)
next
  case (Cons x xs)
  have "array_sort cmp (x # xs) = insert_by cmp x (array_sort cmp xs)"
    by (simp add: array_sort_def)
  with Cons sorted_wrt_insert_by [of cmp, OF total trans] show ?case by simp
qed

lemma scoreCompare_le0:
  "scoreCompare i a b \<le> 0 \<longleftrightarrow>
     accommodationScore b < accommodationScore a
     \<or> (accommodationScore a = accommodationScore b
        \<and> \<bar>distanceFromStart a - i\<bar> \<le> \<bar>distanceFromStart b - i\<bar>)"
  by (auto simp: scoreCompare_def Let_def)

lemma sorted_by_score:
  "sorted_wrt (\<lambda>a b. scoreCompare i a b \<le> 0) (array_sort (scoreCompare i) xs)"
proof (rule sorted_wrt_array_sort)
  fix a b :: stop
  assume "0 < scoreCompare i a b"
  then show "scoreCompare i b a \<le> 0"
    by (auto simp: scoreCompare_def Let_def split: if_splits)
next
  fix a b c :: stop
  assume "scoreCompare i a b \<le> 0" "scoreCompare i b c \<le> 0"
  then show "scoreCompare i a c \<le> 0"
    unfolding scoreCompare_le0 by auto
qed

lemma sorted_by_distance:
  "sorted (map distanceFromStart (array_sort distanceCompare xs))"
proof -
  have "sorted_wrt (\<lambda>a b. distanceCompare a b \<le> 0) (array_sort distanceCompare xs)"
    by (rule sorted_wrt_array_sort) (auto simp: distanceCompare_def)
  then show ?thesis
    by (simp add: sorted_map distanceCompare_def)
qed

section \<open>Properties of the overnight selectors\<close>

lemma fold_invariant:
  assumes "P s" and "\<And>d s. P s \<Longrightarrow> P (f d s)"
  shows "P (fold f ds s)"
  using assms(1) by (induction ds arbitrary: s) (auto intro: assms(2))

lemma fold_length_bound:
  assumes "\<And>d s. length (f d s) \<le> Suc (length s)"
  shows "length (fold f ds s) \<le> length s + length ds"
proof (induction ds arbitrary: s)
  case Nil
  show ?case by simp
next
  case (Cons d ds)
  have "length (fold f ds (f d s)) \<le> length (f d s) + length ds"
    by (rule Cons.IH)
  also have "\<dots> \<le> Suc (length s) + length ds"
    using assms [of d s] by simp
  finally show ?case by simp
qed

lemma tooClose_iff:
  "tooClose gap sel s \<longleftrightarrow> (\<exists>a\<in>set sel. \<bar>distanceFromStart a - distanceFromStart s\<bar> < gap)"
  by (simp add: tooClose_def list_ex_iff)

lemma pickStop_cases:
  "pickStop stops t tol gap sel = sel
   \<or> (\<exists>c\<in>set stops. \<not> tooClose gap sel c \<and> pickStop stops t tol gap sel = sel @ [c])"
proof (cases "filter (\<lambda>s. \<bar>distanceFromStart s - t\<bar> \<le> tol \<and> \<not> tooClose gap sel s) stops")
  case Nil
  show ?thesis
  proof (cases "List.find (\<lambda>s. \<not> tooClose gap sel s) stops")
    case None
    with Nil show ?thesis by (simp add: pickStop_def)
  next
    case (Some c)
    then have "c \<in> set stops" "\<not> tooClose gap sel c"
      by (auto simp: find_Some_iff)
    with Nil Some show ?thesis by (simp add: pickStop_def)
  qed
next
  case (Cons c cs)
  then have "c \<in> set (filter (\<lambda>s. \<bar>distanceFromStart s - t\<bar> \<le> tol \<and> \<not> tooClose gap sel s) stops)"
    by simp
  then have "c \<in> set stops" "\<not> tooClose gap sel c" by auto
  with Cons show ?thesis by (simp add: pickStop_def)
qed

lemma pickStop_length: "length (pickStop stops t tol gap sel) \<le> Suc (length sel)"
  using pickStop_cases [of stops t tol gap sel] by auto

lemma pickStop_subset:
  "set sel \<subseteq> set stops \<Longrightarrow> set (pickStop stops t tol gap sel) \<subseteq> set stops"
  using pickStop_cases [of stops t tol gap sel] by auto

lemma pickStop_apart:
  "sorted_wrt (apart gap) sel \<Longrightarrow> sorted_wrt (apart gap) (pickStop stops t tol gap sel)"
  using pickStop_cases [of stops t tol gap sel]
  by (auto simp: sorted_wrt_append tooClose_iff apart_def)

lemma considerStop_cases:
  "considerStop i t sel s best = best
   \<or> (\<exists>sc. considerStop i t sel s best = Some (s, sc)
        \<and> \<bar>distanceFromStart s - t\<bar> \<le> i * 0.5 \<and> \<not> tooClose (i * 0.3) sel s \<and> i \<noteq> 0)"
  by (auto simp: considerStop_def Let_def split: option.splits)

lemma fold_considerStop:
  "fold (considerStop i t sel) stops best = Some (b, sc) \<Longrightarrow>
     best = Some (b, sc)
     \<or> (b \<in> set stops \<and> \<bar>distanceFromStart b - t\<bar> \<le> i * 0.5
        \<and> \<not> tooClose (i * 0.3) sel b \<and> i \<noteq> 0)"
proof (induction stops arbitrary: best)
  case Nil
  then show ?case by simp
next
  case (Cons s stops)
  from Cons.prems have "fold (considerStop i t sel) stops (considerStop i t sel s best) = Some (b, sc)"
    by simp
  from Cons.IH [OF this] considerStop_cases [of i t sel s best]
  show ?case by auto
qed

lemma pickBest_cases:
  "pickBest stops i t sel = sel
   \<or> (\<exists>b\<in>set stops. pickBest stops i t sel = sel @ [b]
        \<and> \<bar>distanceFromStart b - t\<bar> \<le> i * 0.5 \<and> \<not> tooClose (i * 0.3) sel b \<and> i \<noteq> 0)"
proof (cases "fold (considerStop i t sel) stops None")
  case None
  then show ?thesis by (simp add: pickBest_def)
next
  case (Some p)
  obtain b sc where p: "p = (b, sc)" by (cases p)
  from fold_considerStop [of i t sel stops None b sc] Some p
  show ?thesis by (auto simp: pickBest_def)
qed

lemma pickBest_length: "length (pickBest stops i t sel) \<le> Suc (length sel)"
  using pickBest_cases [of stops i t sel] by auto

lemma pickBest_subset:
  "set sel \<subseteq> set stops \<Longrightarrow> set (pickBest stops i t sel) \<subseteq> set stops"
  using pickBest_cases [of stops i t sel] by auto

lemma pickBest_apart:
  "sorted_wrt (apart (i * 0.3)) sel \<Longrightarrow> sorted_wrt (apart (i * 0.3)) (pickBest stops i t sel)"
  using pickBest_cases [of stops i t sel]
  by (auto simp: sorted_wrt_append tooClose_iff apart_def)

lemma apart_insert_by:
  "sorted_wrt (apart gap) (insert_by cmp x ys)
     \<longleftrightarrow> sorted_wrt (apart gap) ys \<and> (\<forall>y\<in>set ys. apart gap x y)"
proof (induction ys)
  case Nil
  show ?case by simp
next
  case (Cons y ys)
  have sym: "\<And>a b. apart gap a b = apart gap b a"
    by (simp add: apart_def abs_minus_commute)
  have "set (insert_by cmp x ys) = insert x (set ys)"
    using mset_insert_by [of cmp x ys] by (metis set_mset_mset set_mset_add_mset_insert)
  with Cons sym show ?case by auto
qed

lemma apart_array_sort:
  "sorted_wrt (apart gap) (array_sort cmp xs) \<longleftrightarrow> sorted_wrt (apart gap) xs"
proof (induction xs)
  case Nil
  show ?case by (simp add: array_sort_def)
next
  case (Cons x xs)
  have "array_sort cmp (x # xs) = insert_by cmp x (array_sort cmp xs)"
    by (simp add: array_sort_def)
  with Cons show ?case by (auto simp: apart_insert_by set_array_sort)
qed

lemma apart_weaken:
  assumes "sorted_wrt (apart (i * 0.3)) xs"
  shows "sorted_wrt (apart (i * 0.2)) xs"
proof (rule sorted_wrt_mono_rel [OF _ assms])
  fix a b :: stop
  assume "apart (i * 0.3) a b"
  then have "i * 0.3 \<le> \<bar>distanceFromStart a - distanceFromStart b\<bar>"
    by (simp add: apart_def not_less)
  moreover have "0 \<le> \<bar>distanceFromStart a - distanceFromStart b\<bar>" by simp
  ultimately have "i * 0.2 \<le> \<bar>distanceFromStart a - distanceFromStart b\<bar>"
    by (cases "0 \<le> i") linarith+
  then show "apart (i * 0.2) a b"
    by (simp add: apart_def not_less)
qed

lemma pickBest_nonpositive:
  assumes "i \<le> 0"
  shows "pickBest stops i t sel = sel"
proof -
  have "\<not> (\<exists>b\<in>set stops. \<bar>distanceFromStart b - t\<bar> \<le> i * 0.5 \<and> i \<noteq> 0)"
  proof
    assume "\<exists>b\<in>set stops. \<bar>distanceFromStart b - t\<bar> \<le> i * 0.5 \<and> i \<noteq> 0"
    then obtain b :: stop where b: "\<bar>distanceFromStart b - t\<bar> \<le> i * 0.5" and nz: "i \<noteq> 0"
      by auto
    have "0 \<le> \<bar>distanceFromStart b - t\<bar>" by simp
    with b nz assms show False by simp
  qed
  with pickBest_cases [of stops i t sel] show ?thesis by blast
qed

lemma fold_pickBest_sorted:
  assumes pos: "0 < i"
  shows "sorted_wrt (<) ds \<Longrightarrow> sorted (map distanceFromStart sel) \<Longrightarrow>
         (\<forall>s\<in>set sel. \<forall>d\<in>set ds. distanceFromStart s \<le> i * (of_int d - 1/2)) \<Longrightarrow>
         sorted (map distanceFromStart
                   (fold (\<lambda>d sel. pickBest stops i (i * of_int d) sel) ds sel))"
proof (induction ds arbitrary: sel)
  case Nil
  then show ?case by simp
next
  case (Cons d ds)
  let ?sel' = "pickBest stops i (i * of_int d) sel"
  have ds: "sorted_wrt (<) ds" and later: "\<forall>d'\<in>set ds. d < d'"
    using Cons.prems(1) by auto
  have old: "\<forall>s\<in>set sel. distanceFromStart s \<le> i * (of_int d - 1/2)"
    and old': "\<forall>s\<in>set sel. \<forall>d'\<in>set ds. distanceFromStart s \<le> i * (of_int d' - 1/2)"
    using Cons.prems(3) by auto
  have "sorted (map distanceFromStart ?sel')
        \<and> (\<forall>s\<in>set ?sel'. \<forall>d'\<in>set ds. distanceFromStart s \<le> i * (of_int d' - 1/2))"
  proof (cases "?sel' = sel")
    case True
    with Cons.prems(2) old' show ?thesis by simp
  next
    case False
    with pickBest_cases [of stops i "i * of_int d" sel]
    obtain b where b: "?sel' = sel @ [b]"
      and near: "\<bar>distanceFromStart b - i * of_int d\<bar> \<le> i * 0.5"
      by blast
    have expand: "i * (of_int d - 1/2) = i * of_int d - i / 2"
      "i * (of_int d + 1/2) = i * of_int d + i / 2"
      by (simp_all add: algebra_simps)
    have lower: "i * (of_int d - 1/2) \<le> distanceFromStart b"
      unfolding expand using near by linarith
    have upper: "distanceFromStart b \<le> i * (of_int d + 1/2)"
      unfolding expand using near by linarith
    have next_day: "distanceFromStart b \<le> i * (of_int d' - 1/2)" if "d' \<in> set ds" for d'
    proof -
      from that later have "d + 1 \<le> d'" by auto
      then have "(of_int d :: real) + 1 \<le> of_int d'"
        by (metis of_int_1 of_int_add of_int_le_iff)
      then have "(of_int d :: real) + 1/2 \<le> of_int d' - 1/2" by simp
      then have "i * (of_int d + 1/2) \<le> i * (of_int d' - 1/2)"
        using pos by (simp only: mult_le_cancel_left_pos)
      with upper show ?thesis by linarith
    qed
    have "sorted (map distanceFromStart (sel @ [b]))"
      using Cons.prems(2) old lower by (fastforce simp: sorted_append)
    with b old' next_day show ?thesis by auto
  qed
  then have "sorted (map distanceFromStart
                       (fold (\<lambda>d sel. pickBest stops i (i * of_int d) sel) ds ?sel'))"
    using Cons.IH [OF ds] by blast
  then show ?case by simp
qed

lemma fold_pickBest_nonpositive:
  assumes "i \<le> 0"
  shows "fold (\<lambda>d sel. pickBest stops i (i * of_int d) sel) ds sel = sel"
  by (induction ds arbitrary: sel) (simp_all add: pickBest_nonpositive [OF assms])

lemma ui_sorted:
  "sorted (map distanceFromStart (snd (selectOvernightStops_ui stops i days)))"
proof (cases "0 < i")
  case True
  have "sorted_wrt (<) [1..days - 1]" by simp
  from fold_pickBest_sorted [OF True this, of "[]"] show ?thesis
    by (simp add: selectOvernightStops_ui_def Let_def)
next
  case False
  then have "i \<le> 0" by simp
  from fold_pickBest_nonpositive [OF this] show ?thesis
    by (simp add: selectOvernightStops_ui_def Let_def)
qed

lemma fold_pickStop_length:
  "length (fold (\<lambda>d sel. pickStop stops (f d) tol gap sel) ds []) \<le> length ds"
  using fold_length_bound [of "\<lambda>d sel. pickStop stops (f d) tol gap sel" ds "[]"]
  by (simp add: pickStop_length)

lemma fold_pickBest_length:
  "length (fold (\<lambda>d sel. pickBest stops i (f d) sel) ds []) \<le> length ds"
  using fold_length_bound [of "\<lambda>d sel. pickBest stops i (f d) sel" ds "[]"]
  by (simp add: pickBest_length)

lemmas selector_defs = array_sort_def scoreCompare_def distanceCompare_def pickStop_def
  tooClose_def pickBest_def considerStop_def Let_def upto.simps

lemma fold_pickStop_apart:
  "sorted_wrt (apart gap) (fold (\<lambda>d sel. pickStop stops (f d) tol gap sel) ds [])"
proof (rule fold_invariant)
  show "sorted_wrt (apart gap) []" by simp
next
  fix d s assume "sorted_wrt (apart gap) s"
  then show "sorted_wrt (apart gap) (pickStop stops (f d) tol gap s)"
    by (rule pickStop_apart)
qed

lemma fold_pickBest_apart:
  "sorted_wrt (apart (i * 0.3)) (fold (\<lambda>d sel. pickBest stops i (f d) sel) ds [])"
proof (rule fold_invariant)
  show "sorted_wrt (apart (i * 0.3)) []" by simp
next
  fix d s assume "sorted_wrt (apart (i * 0.3)) s"
  then show "sorted_wrt (apart (i * 0.3)) (pickBest stops i (f d) s)"
    by (rule pickBest_apart)
qed

lemma fold_pickStop_subset:
  "set (fold (\<lambda>d sel. pickStop stops (f d) tol gap sel) ds []) \<subseteq> set stops"
proof (rule fold_invariant)
  show "set [] \<subseteq> set stops" by simp
next
  fix d s assume "set s \<subseteq> set stops"
  then show "set (pickStop stops (f d) tol gap s) \<subseteq> set stops"
    by (rule pickStop_subset)
qed

lemma fold_pickBest_subset:
  "set (fold (\<lambda>d sel. pickBest stops i (f d) sel) ds []) \<subseteq> set stops"
proof (rule fold_invariant)
  show "set [] \<subseteq> set stops" by simp
next
  fix d s assume "set s \<subseteq> set stops"
  then show "set (pickBest stops i (f d) s) \<subseteq> set stops"
    by (rule pickBest_subset)
qed

lemma selectOptimalStops_snd:
  "snd (selectOptimalStops stops i dur days) =
     array_sort distanceCompare
       (fold (\<lambda>d sel. pickStop (array_sort (scoreCompare i) stops) (i * of_int d)
                         (i * 0.4) (i * 0.2) sel) [1..days - 1] [])"
  by (simp only: selectOptimalStops_def Let_def snd_conv)

lemma selectOvernightStops_snd:
  "snd (selectOvernightStops stops i days) =
     (if length stops = 0 then []
      else array_sort distanceCompare
             (fold (\<lambda>d sel. pickStop (array_sort (scoreCompare i) stops) (i * of_int d)
                               (i * 0.5) (i * 0.3) sel) [1..days - 1] []))"
  by (simp only: selectOvernightStops_def Let_def snd_conv if_distrib [of snd] cong: if_cong)

lemma selectOvernightStops2_snd:
  "snd (selectOvernightStops2 stops i days) =
     array_sort distanceCompare
       (fold (\<lambda>d sel. pickStop (array_sort (scoreCompare i) stops) (i * of_int d)
                         (i * 0.4) (i * 0.2) sel) [1..days - 1] [])"
  by (simp only: selectOvernightStops2_def Let_def snd_conv)

lemma selectOvernightStops_ui_snd:
  "snd (selectOvernightStops_ui stops i days) =
     fold (\<lambda>d sel. pickBest (array_sort (scoreCompare i) stops) i (i * of_int d) sel)
          [1..days - 1] []"
  by (simp only: selectOvernightStops_ui_def Let_def snd_conv)

lemma selector_fst:
  "fst (selectOptimalStops stops i dur days) = array_sort (scoreCompare i) stops"
  "fst (selectOvernightStops stops i days) = array_sort (scoreCompare i) stops"
  "fst (selectOvernightStops2 stops i days) = array_sort (scoreCompare i) stops"
  "fst (selectOvernightStops_ui stops i days) = array_sort (scoreCompare i) stops"
  by (simp_all add: selectOptimalStops_def selectOvernightStops_def selectOvernightStops2_def
      selectOvernightStops_ui_def Let_def array_sort_def)

lemma pickStop_pushes_iff:
  "length (pickStop stops t tol gap sel)
     = length sel + (if \<exists>s\<in>set stops. \<not> tooClose gap sel s then 1 else 0)"
proof (cases "\<exists>s\<in>set stops. \<not> tooClose gap sel s")
  case True
  then have found: "List.find (\<lambda>s. \<not> tooClose gap sel s) stops \<noteq> None"
    by (auto simp: find_None_iff)
  have "length (pickStop stops t tol gap sel) = Suc (length sel)"
  proof (cases "filter (\<lambda>s. \<bar>distanceFromStart s - t\<bar> \<le> tol \<and> \<not> tooClose gap sel s) stops")
    case Nil
    with found show ?thesis by (auto simp: pickStop_def)
  next
    case (Cons c cs)
    then show ?thesis by (simp add: pickStop_def)
  qed
  with True show ?thesis by simp
next
  case False
  then have "filter (\<lambda>s. \<bar>distanceFromStart s - t\<bar> \<le> tol \<and> \<not> tooClose gap sel s) stops = []"
    and "List.find (\<lambda>s. \<not> tooClose gap sel s) stops = None"
    by (auto simp: filter_empty_conv find_None_iff)
  with False show ?thesis by (simp add: pickStop_def)
qed

lemma considerStop_keeps_Some:
  "best \<noteq> None \<Longrightarrow> considerStop i t sel s best \<noteq> None"
  by (auto simp: considerStop_def Let_def split: option.splits)

lemma fold_considerStop_keeps_Some:
  "best \<noteq> None \<Longrightarrow> fold (considerStop i t sel) stops best \<noteq> None"
proof (induction stops arbitrary: best)
  case Nil
  then show ?case by simp
next
  case (Cons s stops)
  from Cons.prems have "considerStop i t sel s best \<noteq> None"
    by (rule considerStop_keeps_Some)
  then have "fold (considerStop i t sel) stops (considerStop i t sel s best) \<noteq> None"
    by (rule Cons.IH)
  then show ?case by simp
qed

lemma considerStop_eligible:
  assumes "\<bar>distanceFromStart s - t\<bar> \<le> i * 0.5" "\<not> tooClose (i * 0.3) sel s" "i \<noteq> 0"
  shows "considerStop i t sel s best \<noteq> None"
  using assms by (auto simp: considerStop_def Let_def split: option.splits)

lemma fold_considerStop_None_iff:
  "fold (considerStop i t sel) stops None = None
     \<longleftrightarrow> \<not> (\<exists>s\<in>set stops. \<bar>distanceFromStart s - t\<bar> \<le> i * 0.5
                              \<and> \<not> tooClose (i * 0.3) sel s \<and> i \<noteq> 0)"
proof (induction stops)
  case Nil
  show ?case by simp
next
  case (Cons s stops)
  show ?case
  proof (cases "\<bar>distanceFromStart s - t\<bar> \<le> i * 0.5 \<and> \<not> tooClose (i * 0.3) sel s \<and> i \<noteq> 0")
    case True
    then have "considerStop i t sel s None \<noteq> None"
      by (simp add: considerStop_eligible)
    then have "fold (considerStop i t sel) stops (considerStop i t sel s None) \<noteq> None"
      by (rule fold_considerStop_keeps_Some)
    with True show ?thesis by auto
  next
    case False
    with considerStop_cases [of i t sel s None] have "considerStop i t sel s None = None"
      by auto
    with False Cons.IH show ?thesis by auto
  qed
qed

lemma pickBest_pushes_iff:
  "length (pickBest stops i t sel)
     = length sel + (if \<exists>s\<in>set stops. \<bar>distanceFromStart s - t\<bar> \<le> i * 0.5
                              \<and> \<not> tooClose (i * 0.3) sel s \<and> i \<noteq> 0 then 1 else 0)"
  using fold_considerStop_None_iff [of i t sel stops]
  by (auto simp: pickBest_def split: option.splits)

lemma fold_upto_count:
  assumes step: "\<And>d sel. length (f d sel) = length sel + (if P d sel then 1 else 0)"
  shows "length (fold f [1..m] []) = length (filter (\<lambda>d. P d (fold f [1..d - 1] [])) [1..m])"
proof (induction "nat m" arbitrary: m)
  case 0
  then have "[1..m] = []" by simp
  then show ?case by simp
next
  case (Suc k)
  then have m: "1 \<le> m" and k: "k = nat (m - 1)" by simp_all
  from m have split: "[1..m] = [1..m - 1] @ [m]" by (rule upto_rec2)
  have "length (fold f [1..m] []) = length (f m (fold f [1..m - 1] []))"
    by (simp add: split)
  also have "\<dots> = length (fold f [1..m - 1] []) + (if P m (fold f [1..m - 1] []) then 1 else 0)"
    by (rule step)
  also have "length (fold f [1..m - 1] [])
               = length (filter (\<lambda>d. P d (fold f [1..d - 1] [])) [1..m - 1])"
    using k by (rule Suc.hyps(1))
  finally show ?case by (subst (2) split) simp
qed

lemma length_filter_all:
  "length (filter P xs) = length xs \<longleftrightarrow> (\<forall>x\<in>set xs. P x)"
  by (metis filter_id_conv length_filter_le filter_True length_filter_less nat_neq_iff)

lemma freeAt_iff:
  "freeAt stops i d \<longleftrightarrow>
     (\<exists>s\<in>set (array_sort (scoreCompare i) stops).
        \<not> tooClose (i * 0.3)
             (fold (\<lambda>d sel. pickStop (array_sort (scoreCompare i) stops) (i * of_int d)
                               (i * 0.5) (i * 0.3) sel) [1..d - 1] []) s)"
  unfolding freeAt_def selectedBefore_def list_ex_iff set_array_sort ..

lemma freeAt_ui_iff:
  "freeAt_ui stops i d \<longleftrightarrow>
     (\<exists>s\<in>set (array_sort (scoreCompare i) stops).
        \<bar>distanceFromStart s - i * of_int d\<bar> \<le> i * 0.5
        \<and> \<not> tooClose (i * 0.3)
             (fold (\<lambda>d sel. pickBest (array_sort (scoreCompare i) stops) i (i * of_int d) sel)
                   [1..d - 1] []) s
        \<and> i \<noteq> 0)"
  unfolding freeAt_ui_def selectedBefore_ui_def list_ex_iff set_array_sort ..

lemma selectOvernightStops_count:
  "length (snd (selectOvernightStops stops i n)) = length (filter (freeAt stops i) [1..n - 1])"
proof (cases "length stops = 0")
  case True
  then have "\<not> freeAt stops i d" for d by (simp add: freeAt_def)
  with True show ?thesis by (simp add: selectOvernightStops_snd)
next
  case False
  let ?sorted = "array_sort (scoreCompare i) stops"
  let ?f = "\<lambda>d sel. pickStop ?sorted (i * of_int d) (i * 0.5) (i * 0.3) sel"
  have "length (fold ?f [1..n - 1] [])
          = length (filter (\<lambda>d. \<exists>s\<in>set ?sorted. \<not> tooClose (i * 0.3) (fold ?f [1..d - 1] []) s)
                      [1..n - 1])"
    by (rule fold_upto_count) (rule pickStop_pushes_iff)
  also have "\<dots> = length (filter (freeAt stops i) [1..n - 1])"
    unfolding freeAt_iff ..
  finally show ?thesis
    unfolding selectOvernightStops_snd if_not_P [OF False] length_array_sort .
qed

lemma selectOvernightStops_ui_count:
  "length (snd (selectOvernightStops_ui stops i n)) = length (filter (freeAt_ui stops i) [1..n - 1])"
proof -
  let ?sorted = "array_sort (scoreCompare i) stops"
  let ?f = "\<lambda>d sel. pickBest ?sorted i (i * of_int d) sel"
  have "length (fold ?f [1..n - 1] [])
          = length (filter (\<lambda>d. \<exists>s\<in>set ?sorted.
                                  \<bar>distanceFromStart s - i * of_int d\<bar> \<le> i * 0.5
                                  \<and> \<not> tooClose (i * 0.3) (fold ?f [1..d - 1] []) s \<and> i \<noteq> 0)
                      [1..n - 1])"
    by (rule fold_upto_count) (rule pickBest_pushes_iff)
  also have "\<dots> = length (filter (freeAt_ui stops i) [1..n - 1])"
    unfolding freeAt_ui_iff ..
  finally show ?thesis
    unfolding selectOvernightStops_ui_snd .
qed

lemma freeAt_first: "stops \<noteq> [] \<Longrightarrow> freeAt stops i 1"
  by (cases stops) (simp_all add: freeAt_def selectedBefore_def tooClose_def)

lemma count_full_iff:
  "length (filter P [1..n - 1]) = nat (n - 1) \<longleftrightarrow> (\<forall>d\<in>{1..n - 1}. P d)"
  using length_filter_all [of P "[1..n - 1]"] by simp

lemma count_le: "length (filter P [1..n - 1]) \<le> nat (n - 1)"
  using length_filter_le [of P "[1..n - 1]"] by simp

lemma count_ge1:
  assumes "2 \<le> n" "P 1"
  shows "1 \<le> length (filter P [1..n - 1])"
proof -
  from assms(1) have "1 \<in> set [1..n - 1]" by simp
  with assms(2) have "1 \<in> set (filter P [1..n - 1])" by simp
  then have "filter P [1..n - 1] \<noteq> []" by (metis list.set(1) empty_iff)
  then show ?thesis by (cases "filter P [1..n - 1]") simp_all
qed

section \<open>Claims about the overnight selectors\<close>

text \<open>Worked examples: the selectors on the three candidates, and on a single candidate.\<close>

lemma example_utils: 
  "selectOvernightStops [stopA, stopB, stopC] 100000 3
     = ([stopB, stopA, stopC], [stopA, stopB])"
  by (simp add: selectOvernightStops_def selector_defs stopA_def stopB_def stopC_def)

lemma example_ui: 
  "selectOvernightStops_ui [stopA, stopB, stopC] 100000 3
     = ([stopB, stopA, stopC], [stopA, stopB])"
  by (simp add: selectOvernightStops_ui_def selector_defs stopA_def stopB_def stopC_def)

lemma example_optimal: 
  "selectOptimalStops [stopA, stopB, stopC] 100000 2 3
     = ([stopB, stopA, stopC], [stopA, stopB])"
  by (simp add: selectOptimalStops_def selector_defs stopA_def stopB_def stopC_def)

lemma single_candidate_utils: "snd (selectOvernightStops [stopA] 100000 3) = [stopA]"
  by (simp add: selectOvernightStops_def selector_defs stopA_def)

lemma single_candidate_ui: "snd (selectOvernightStops_ui [stopA] 100000 3) = [stopA]"
  by (simp add: selectOvernightStops_ui_def selector_defs stopA_def)


lemma selectedBefore_example:
  "selectedBefore [stopA, stopB, stopC] 100000 1 = []"
  "selectedBefore [stopA, stopB, stopC] 100000 2 = [stopA]"
  by (simp_all add: selectedBefore_def selector_defs stopA_def stopB_def stopC_def)

lemma freeAt_example:
  "freeAt [stopA, stopB, stopC] 100000 1"
  "freeAt [stopA, stopB, stopC] 100000 2"
  unfolding freeAt_def selectedBefore_example
  by (simp_all add: tooClose_def stopA_def stopB_def stopC_def)

lemma freeAt_single:
  "freeAt [stopA] 100000 1" "\<not> freeAt [stopA] 100000 2"
  "freeAt_ui [stopA] 100000 1" "\<not> freeAt_ui [stopA] 100000 2"
  by (simp_all add: freeAt_def freeAt_ui_def selectedBefore_def selectedBefore_ui_def
      selector_defs stopA_def)

text \<open>
  C1 (amended). For every candidate list, every ideal daily distance (in particular
  \<open>D / n\<close> for a route of length \<open>D\<close> planned over \<open>n\<close> days) and every number of
  days \<open>n\<close>, \<^verbatim>\<open>selectOvernightStops\<close> returns one stop for each day boundary
  \<open>1, \<dots>, n - 1\<close> at which a candidate is free, and no stop for the other boundaries.
  In utils.js a candidate is free when it is not within 0.3 of the ideal distance of a
  stop selected at an earlier boundary; in ui.js it must also lie within 0.5 of the ideal
  distance of the target. So at most \<open>n - 1\<close> stops are returned, exactly \<open>n - 1\<close> if
  and only if a candidate is free at every boundary, and in utils.js at least one if the
  candidate list is not empty and \<open>n\<close> is at least 2. The stops are returned in
  ascending order of \<^verbatim>\<open>distanceFromStart\<close>.
\<close>

theorem overnight_count_and_order:
  "length (snd (selectOvernightStops stops idealDailyDistance n))
     = length (filter (freeAt stops idealDailyDistance) [1..n - 1])
   \<and> length (snd (selectOvernightStops stops idealDailyDistance n)) \<le> nat (n - 1)
   \<and> (length (snd (selectOvernightStops stops idealDailyDistance n)) = nat (n - 1)
        \<longleftrightarrow> (\<forall>d\<in>{1..n - 1}. freeAt stops idealDailyDistance d))
   \<and> (stops \<noteq> [] \<and> 2 \<le> n \<longrightarrow>
        1 \<le> length (snd (selectOvernightStops stops idealDailyDistance n)))
   \<and> sorted (map distanceFromStart (snd (selectOvernightStops stops idealDailyDistance n)))
   \<and> length (snd (selectOvernightStops_ui stops idealDailyDistance n))
       = length (filter (freeAt_ui stops idealDailyDistance) [1..n - 1])
   \<and> length (snd (selectOvernightStops_ui stops idealDailyDistance n)) \<le> nat (n - 1)
   \<and> (length (snd (selectOvernightStops_ui stops idealDailyDistance n)) = nat (n - 1)
        \<longleftrightarrow> (\<forall>d\<in>{1..n - 1}. freeAt_ui stops idealDailyDistance d))
   \<and> sorted (map distanceFromStart (snd (selectOvernightStops_ui stops idealDailyDistance n)))"
proof -
  let ?i = idealDailyDistance
  note utils = selectOvernightStops_count [of stops ?i n]
  note ui = selectOvernightStops_ui_count [of stops ?i n]
  have "length (snd (selectOvernightStops stops ?i n)) \<le> nat (n - 1)"
    unfolding utils by (rule count_le)
  moreover have "length (snd (selectOvernightStops stops ?i n)) = nat (n - 1)
        \<longleftrightarrow> (\<forall>d\<in>{1..n - 1}. freeAt stops ?i d)"
    unfolding utils by (rule count_full_iff)
  moreover have "1 \<le> length (snd (selectOvernightStops stops ?i n))" if "stops \<noteq> [] \<and> 2 \<le> n"
    unfolding utils using that by (intro count_ge1 freeAt_first) simp_all
  moreover have "sorted (map distanceFromStart (snd (selectOvernightStops stops ?i n)))"
    by (simp add: selectOvernightStops_def Let_def sorted_by_distance)
  moreover have "length (snd (selectOvernightStops_ui stops ?i n)) \<le> nat (n - 1)"
    unfolding ui by (rule count_le)
  moreover have "length (snd (selectOvernightStops_ui stops ?i n)) = nat (n - 1)
        \<longleftrightarrow> (\<forall>d\<in>{1..n - 1}. freeAt_ui stops ?i d)"
    unfolding ui by (rule count_full_iff)
  moreover note ui_sorted [of stops ?i n]
  ultimately show ?thesis using utils ui by blast
qed

text \<open>
  With the three candidates and three days a candidate is free at both boundaries, and
  two stops are returned.
\<close>

theorem overnight_count_and_order_witness:
  "[stopA, stopB, stopC] \<noteq> [] \<and> (2::int) \<le> 3
   \<and> freeAt [stopA, stopB, stopC] 100000 1 \<and> freeAt [stopA, stopB, stopC] 100000 2
   \<and> length (snd (selectOvernightStops [stopA, stopB, stopC] 100000 3)) = nat (3 - 1)
   \<and> snd (selectOvernightStops [stopA, stopB, stopC] 100000 3) = [stopA, stopB]"
proof -
  have "\<forall>d\<in>{1..3 - 1}. freeAt [stopA, stopB, stopC] 100000 d"
  proof
    fix d :: int assume "d \<in> {1..3 - 1}"
    then have "d = 1 \<or> d = 2" by auto
    with freeAt_example show "freeAt [stopA, stopB, stopC] 100000 d" by auto
  qed
  with overnight_count_and_order [of "[stopA, stopB, stopC]" 100000 3]
  have "length (snd (selectOvernightStops [stopA, stopB, stopC] 100000 3)) = nat (3 - 1)"
    by blast
  with freeAt_example show ?thesis by (simp add: example_utils)
qed

text \<open>
  C1 as stated fails: a route of 300 km over 3 days with the single candidate
  \<open>stopA\<close> yields one stop, not two. The first day boundary takes the candidate; at
  the second it is within the minimum gap of itself, no candidate is free and nothing is
  pushed.
\<close>

theorem overnight_count_counterexample:
  "[stopA] \<noteq> []
   \<and> length (snd (selectOvernightStops [stopA] (300000 / 3) 3)) = 1
   \<and> length (snd (selectOvernightStops_ui [stopA] (300000 / 3) 3)) = 1
   \<and> (1::nat) \<noteq> nat (3 - 1)
   \<and> \<not> freeAt [stopA] (300000 / 3) 2"
  by (simp add: single_candidate_utils single_candidate_ui freeAt_single)

text \<open>
  C2. Any two stops at distinct positions of the output of \<^verbatim>\<open>selectOptimalStops\<close>,
  of \<^verbatim>\<open>selectOvernightStops\<close> (utils.js) and of \<^verbatim>\<open>selectOvernightStops\<close> (ui.js)
  are at least \<open>i \<times> 0.2\<close> apart in \<^verbatim>\<open>distanceFromStart\<close>, where \<open>i\<close> is the ideal
  daily distance handed to the selector.
\<close>

theorem overnight_spacing:
  assumes "out = snd (selectOptimalStops stops i dur days)
           \<or> out = snd (selectOvernightStops stops i days)
           \<or> out = snd (selectOvernightStops_ui stops i days)"
    and "a < b" and "b < length out"
  shows "i * 0.2 \<le> \<bar>distanceFromStart (out ! a) - distanceFromStart (out ! b)\<bar>"
proof -
  have opt: "sorted_wrt (apart (i * 0.2)) (snd (selectOptimalStops stops i dur days))"
    unfolding selectOptimalStops_snd apart_array_sort by (rule fold_pickStop_apart)
  have "sorted_wrt (apart (i * 0.3)) (snd (selectOvernightStops stops i days))"
  proof (cases "length stops = 0")
    case True
    then show ?thesis unfolding selectOvernightStops_snd by simp
  next
    case False
    then show ?thesis
      unfolding selectOvernightStops_snd if_not_P [OF False] apart_array_sort
      by (intro fold_pickStop_apart)
  qed
  then have utl: "sorted_wrt (apart (i * 0.2)) (snd (selectOvernightStops stops i days))"
    by (rule apart_weaken)
  have "sorted_wrt (apart (i * 0.3)) (snd (selectOvernightStops_ui stops i days))"
    unfolding selectOvernightStops_ui_snd by (rule fold_pickBest_apart)
  then have ui: "sorted_wrt (apart (i * 0.2)) (snd (selectOvernightStops_ui stops i days))"
    by (rule apart_weaken)
  from assms(1) opt utl ui have "sorted_wrt (apart (i * 0.2)) out" by blast
  with assms(2,3) have "apart (i * 0.2) (out ! a) (out ! b)"
    by (simp only: sorted_wrt_iff_nth_less)
  then show ?thesis by (simp only: apart_def not_less)
qed

text \<open>The two stops selected from the three candidates are 120 km apart.\<close>

theorem overnight_spacing_witness:
  "snd (selectOvernightStops [stopA, stopB, stopC] 100000 3) = [stopA, stopB]
   \<and> (100000::real) * 0.2 \<le> \<bar>distanceFromStart stopA - distanceFromStart stopB\<bar>"
  using overnight_spacing [of "[stopA, stopB]" "[stopA, stopB, stopC]" 100000 0 3 0 1]
  by (simp add: example_utils)

text \<open>
  C10. Each \<^verbatim>\<open>selectOvernightStops\<close> (both of utils.js and the one of ui.js) leaves
  the caller's array as a permutation of what it was, ordered by the selector's
  comparator, and returns only stops of that array.
\<close>

theorem selector_sorts_in_place:
  assumes "r = selectOvernightStops stops i days
           \<or> r = selectOvernightStops2 stops i days
           \<or> r = selectOvernightStops_ui stops i days"
  shows "mset (fst r) = mset stops
         \<and> sorted_wrt (\<lambda>a b. scoreCompare i a b \<le> 0) (fst r)
         \<and> set (snd r) \<subseteq> set stops"
proof -
  let ?sorted = "array_sort (scoreCompare i) stops"
  have fst_r: "fst r = ?sorted"
    using assms selector_fst by metis
  have "set (snd (selectOvernightStops stops i days)) \<subseteq> set ?sorted"
  proof (cases "length stops = 0")
    case True
    then show ?thesis unfolding selectOvernightStops_snd by simp
  next
    case False
    show ?thesis
      unfolding selectOvernightStops_snd if_not_P [OF False] set_array_sort [of distanceCompare]
      by (rule fold_pickStop_subset)
  qed
  moreover have "set (snd (selectOvernightStops2 stops i days)) \<subseteq> set ?sorted"
    unfolding selectOvernightStops2_snd set_array_sort [of distanceCompare]
    by (rule fold_pickStop_subset)
  moreover have "set (snd (selectOvernightStops_ui stops i days)) \<subseteq> set ?sorted"
    unfolding selectOvernightStops_ui_snd by (rule fold_pickBest_subset)
  ultimately have "set (snd r) \<subseteq> set ?sorted"
    using assms by blast
  then have "set (snd r) \<subseteq> set stops"
    by (simp only: set_array_sort)
  moreover have "mset (fst r) = mset stops"
    unfolding fst_r by (rule mset_array_sort)
  moreover have "sorted_wrt (\<lambda>a b. scoreCompare i a b \<le> 0) (fst r)"
    unfolding fst_r by (rule sorted_by_score)
  ultimately show ?thesis by blast
qed

text \<open>On the three candidates the caller's array is left in the order B, A, C.\<close>

theorem selector_sorts_in_place_witness:
  "fst (selectOvernightStops [stopA, stopB, stopC] 100000 3) = [stopB, stopA, stopC]
   \<and> mset [stopB, stopA, stopC] = mset [stopA, stopB, stopC]
   \<and> sorted_wrt (\<lambda>a b. scoreCompare 100000 a b \<le> 0) [stopB, stopA, stopC]
   \<and> set [stopA, stopB] \<subseteq> set [stopA, stopB, stopC]"
  using selector_sorts_in_place
    [of "([stopB, stopA, stopC], [stopA, stopB])" "[stopA, stopB, stopC]" 100000 3]
  by (simp add: example_utils)

section \<open>Properties of deduplication and of the POI search\<close>



lemma subseq_dedup_filter: "subseq (removeDuplicatePois2_filter seen ps) ps"
  by (induction ps arbitrary: seen) (auto simp: Let_def intro: subseq_Cons')


lemma dedup_filter_nonempty:
  "removeDuplicatePois2_filter {} ps = [] \<longleftrightarrow> ps = []"
  by (cases ps) (simp_all add: Let_def)


lemma normalized_cityMuseum:
  "normalizedTitle cityMuseum1 = ''city museum''"
  "normalizedTitle cityMuseum2 = ''city museum''"
  by (simp_all add: normalizedTitle_def cityMuseum1_def cityMuseum2_def toLowerCase_def
      toLowerChar_def trim_def isWhitespace_def)

lemma dedup_cityMuseum:
  "removeDuplicatePois [cityMuseum1, cityMuseum2] = [cityMuseum1]"
  "removeDuplicatePois2 [cityMuseum1, cityMuseum2] = [cityMuseum1]"
  by (simp_all add: removeDuplicatePois_def removeDuplicatePois2_def normalized_cityMuseum)

lemma pushFound_nonempty:
  "pushFound answer pois = [] \<longleftrightarrow>
     pois = [] \<and> \<not> (case answer of Some found \<Rightarrow> found \<noteq> [] | None \<Rightarrow> False)"
  by (auto simp: pushFound_def split: option.splits)

lemma searchLoop_step:
  "searchLoop w lat lon limit (r # rs) queried [] =
     (if providersFind w lat lon limit r
      then (queried @ [r],
            pushFound (fetchOverpassAttractions w lat lon r limit)
              (pushFound (fetchWikipediaAttractions w lat lon r limit) []))
      else searchLoop w lat lon limit rs (queried @ [r]) [])"
proof (cases "providersFind w lat lon limit r")
  case True
  then have "pushFound (fetchOverpassAttractions w lat lon r limit)
               (pushFound (fetchWikipediaAttractions w lat lon r limit) []) \<noteq> []"
    by (auto simp: pushFound_nonempty providersFind_def)
  with True show ?thesis by (simp add: Let_def)
next
  case False
  then have "pushFound (fetchOverpassAttractions w lat lon r limit)
               (pushFound (fetchWikipediaAttractions w lat lon r limit) []) = []"
    by (auto simp: pushFound_nonempty providersFind_def)
  with False show ?thesis by (simp add: Let_def)
qed

lemma gatherPois_queried:
  "fst (gatherPois w lat lon limit) =
     (if providersFind w lat lon limit 16000 then [16000]
      else if providersFind w lat lon limit 32000 then [16000, 32000]
      else [16000, 32000, 48000])"
  by (simp add: gatherPois_def Let_def searchLoop_step del: searchLoop.simps(2))

lemma gatherPois_nonempty: "snd (gatherPois w lat lon limit) \<noteq> []"
  by (simp add: gatherPois_def Let_def createGenericPois_def split: prod.splits
      del: searchLoop.simps(2))

lemma gatherPois_generic:
  assumes "\<not> providersFind w lat lon limit 16000"
    and "\<not> providersFind w lat lon limit 32000"
    and "\<not> providersFind w lat lon limit 48000"
  shows "snd (gatherPois w lat lon limit) = createGenericPois w lat lon"
  using assms by (simp add: gatherPois_def Let_def searchLoop_step del: searchLoop.simps(2))

lemma filterByPreferences_subset:
  "set (filterByPreferences preferences pois) \<subseteq> set pois"
  by (auto simp: filterByPreferences_def Let_def)

lemma filterByPreferences_nonempty:
  "pois \<noteq> [] \<Longrightarrow> filterByPreferences preferences pois \<noteq> []"
  by (auto simp: filterByPreferences_def Let_def)

lemma removeDuplicatePois2_subset: "set (removeDuplicatePois2 pois) \<subseteq> set pois"
  unfolding removeDuplicatePois2_def
  using subseq_dedup_filter [of "{}" pois] by (auto dest: list_emb_set)

lemma slice0_subset: "set (slice0 xs k) \<subseteq> set xs"
  by (auto simp: slice0_def dest: in_set_takeD)

lemma slice0_nonempty: "1 \<le> k \<Longrightarrow> xs \<noteq> [] \<Longrightarrow> slice0 xs k \<noteq> []"
  by (auto simp: slice0_def)

lemma removeDuplicatePois2_nonempty: "pois \<noteq> [] \<Longrightarrow> removeDuplicatePois2 pois \<noteq> []"
  by (simp add: removeDuplicatePois2_def dedup_filter_nonempty)

lemma fetchPoisSimple_fst:
  "fst (fetchPoisSimple w lat lon radiusMeters limit preferences) = fst (gatherPois w lat lon limit)"
  by (simp add: fetchPoisSimple_def Let_def split: prod.splits)

lemma fetchPoisSimple_snd:
  "snd (fetchPoisSimple w lat lon radiusMeters limit preferences) =
     slice0 (removeDuplicatePois2 (filterByPreferences preferences (snd (gatherPois w lat lon limit))))
       limit"
  by (simp add: fetchPoisSimple_def Let_def split: prod.splits)

lemma generic_source: "\<forall>p\<in>set (createGenericPois w lat lon). source p = ''generic''"
  by (simp add: createGenericPois_def Let_def)

lemma providersFind_examples:
  "\<not> providersFind emptyWorld lat lon limit r"
  "providersFind museumWorld lat lon limit r"
  "providersFind onlyAt20km lat lon limit r \<longleftrightarrow> r = 20000"
  by (simp_all add: providersFind_def emptyWorld_def museumWorld_def onlyAt20km_def)

lemma gather_examples:
  "gatherPois emptyWorld lat lon limit = ([16000, 32000, 48000], createGenericPois emptyWorld lat lon)"
  "gatherPois onlyAt20km lat lon limit = ([16000, 32000, 48000], createGenericPois onlyAt20km lat lon)"
  "gatherPois museumWorld lat lon limit = ([16000], [cityMuseum1, cityMuseum2])"
  by (simp_all add: gatherPois_def Let_def pushFound_def emptyWorld_def museumWorld_def onlyAt20km_def)

lemma museum_not_food: "filter (preferred [''food'']) [cityMuseum1, cityMuseum2] = []"
  by (simp add: preferred_def matchesPreference_def cityMuseum1_def cityMuseum2_def
      toLowerCase_def toLowerChar_def)

section \<open>Claims about the POI search\<close>

text \<open>
  C3 (amended). \<^verbatim>\<open>fetchPoisSimple\<close> does not use the requested radius: it queries
  both providers at 16 km, then 32 km, then 48 km, and stops after the first of these
  radii at which a provider returns a non-empty list. If no provider returns anything at
  any of the three radii, every returned POI is one of the three placeholders of
  \<^verbatim>\<open>createGenericPois\<close> and carries the source tag \<^verbatim>\<open>'generic'\<close>. Whenever
  \<open>limit\<close> is at least 1 the returned list is not empty.
\<close>

theorem radius_escalation:
  "fst (fetchPoisSimple w lat lon radiusMeters limit preferences) =
     (if providersFind w lat lon limit 16000 then [16000]
      else if providersFind w lat lon limit 32000 then [16000, 32000]
      else [16000, 32000, 48000])
   \<and> (\<not> providersFind w lat lon limit 16000 \<and> \<not> providersFind w lat lon limit 32000
        \<and> \<not> providersFind w lat lon limit 48000 \<longrightarrow>
        set (snd (fetchPoisSimple w lat lon radiusMeters limit preferences))
          \<subseteq> set (createGenericPois w lat lon)
        \<and> (\<forall>p\<in>set (snd (fetchPoisSimple w lat lon radiusMeters limit preferences)).
              source p = ''generic''))
   \<and> (1 \<le> limit \<longrightarrow> snd (fetchPoisSimple w lat lon radiusMeters limit preferences) \<noteq> [])"
proof -
  let ?res = "snd (fetchPoisSimple w lat lon radiusMeters limit preferences)"
  have sub: "set ?res \<subseteq> set (snd (gatherPois w lat lon limit))"
    unfolding fetchPoisSimple_snd
    using slice0_subset removeDuplicatePois2_subset filterByPreferences_subset
    by (meson subset_trans)
  have generic: "set ?res \<subseteq> set (createGenericPois w lat lon)
                 \<and> (\<forall>p\<in>set ?res. source p = ''generic'')"
    if "\<not> providersFind w lat lon limit 16000" "\<not> providersFind w lat lon limit 32000"
      "\<not> providersFind w lat lon limit 48000"
  proof -
    from sub gatherPois_generic [OF that]
    have "set ?res \<subseteq> set (createGenericPois w lat lon)" by simp
    with generic_source [of w lat lon] show ?thesis by blast
  qed
  have nonempty: "?res \<noteq> []" if "1 \<le> limit"
    unfolding fetchPoisSimple_snd
    by (intro slice0_nonempty that removeDuplicatePois2_nonempty filterByPreferences_nonempty
        gatherPois_nonempty)
  show ?thesis
    using generic nonempty by (simp only: fetchPoisSimple_fst gatherPois_queried) blast
qed

text \<open>
  With providers that find nothing and the preference \<^verbatim>\<open>'outdoor'\<close>, all three radii
  are queried and the result is a non-empty list of generic placeholders.
\<close>

theorem radius_escalation_witness:
  "\<not> providersFind emptyWorld 40 (-75) 4 16000 \<and> \<not> providersFind emptyWorld 40 (-75) 4 32000
   \<and> \<not> providersFind emptyWorld 40 (-75) 4 48000 \<and> (1::int) \<le> 4
   \<and> fst (fetchPoisSimple emptyWorld 40 (-75) 20000 4 [''outdoor'']) = [16000, 32000, 48000]
   \<and> snd (fetchPoisSimple emptyWorld 40 (-75) 20000 4 [''outdoor'']) \<noteq> []
   \<and> list_all (\<lambda>p. source p = ''generic'')
        (snd (fetchPoisSimple emptyWorld 40 (-75) 20000 4 [''outdoor'']))"
  using radius_escalation [of emptyWorld 40 "-75" 20000 4 "[''outdoor'']"]
  by (simp add: providersFind_examples list_all_iff)

text \<open>
  C3 as stated fails. With a requested radius of 20 km and a provider that answers only
  at 20 km, the radii queried are 16, 32 and 48 km and the placeholders are returned:
  the requested radius and its multiples are never tried. With \<open>limit = 0\<close> the result
  is empty.
\<close>

theorem radius_escalation_counterexample:
  "providersFind onlyAt20km 40 (-75) 4 20000
   \<and> fst (fetchPoisSimple onlyAt20km 40 (-75) 20000 4 []) = [16000, 32000, 48000]
   \<and> [16000, 32000, 48000] \<noteq> [20000, 2 * 20000, 3 * (20000::real)]
   \<and> snd (fetchPoisSimple onlyAt20km 40 (-75) 20000 4 []) = createGenericPois onlyAt20km 40 (-75)
   \<and> snd (fetchPoisSimple emptyWorld 40 (-75) 20000 0 []) = []"
  by (simp add: providersFind_examples fetchPoisSimple_def gather_examples Let_def
      filterByPreferences_def slice0_def removeDuplicatePois2_def createGenericPois_def
      normalizedTitle_def toLowerCase_def toLowerChar_def trim_def isWhitespace_def)

text \<open>
  C4 (amended). If the preference list is not empty and no gathered POI passes the
  preference filter, the filter is waived: the list handed to deduplication is the
  unfiltered one. \<^verbatim>\<open>fetchPoisSimple\<close> has no ranking step; it returns the unfiltered
  list, deduplicated, in the order the providers gave it, cut by \<^verbatim>\<open>slice(0, limit)\<close>:
  the whole deduplicated list when \<open>limit\<close> is at least its length, its first \<open>limit\<close>
  entries otherwise. This is what it returns for an empty preference list, and it is not
  empty for a limit of at least 1.
\<close>

theorem preference_fail_open:
  assumes "preferences \<noteq> []"
    and "pois \<noteq> []"
    and "filter (preferred preferences) pois = []"
  shows "filterByPreferences preferences pois = pois
         \<and> (snd (gatherPois w lat lon limit) = pois \<longrightarrow>
              snd (fetchPoisSimple w lat lon radiusMeters limit preferences)
                = slice0 (removeDuplicatePois2 pois) limit
              \<and> snd (fetchPoisSimple w lat lon radiusMeters limit preferences)
                = snd (fetchPoisSimple w lat lon radiusMeters limit [])
              \<and> (int (length (removeDuplicatePois2 pois)) \<le> limit \<longrightarrow>
                   snd (fetchPoisSimple w lat lon radiusMeters limit preferences)
                     = removeDuplicatePois2 pois)
              \<and> (0 \<le> limit \<longrightarrow>
                   snd (fetchPoisSimple w lat lon radiusMeters limit preferences)
                     = take (nat limit) (removeDuplicatePois2 pois))
              \<and> (1 \<le> limit \<longrightarrow>
                   snd (fetchPoisSimple w lat lon radiusMeters limit preferences) \<noteq> []))"
proof -
  have waived: "filterByPreferences preferences pois = pois"
    using assms(1,3) by (simp add: filterByPreferences_def Let_def)
  have none: "filterByPreferences [] pois = pois"
    by (simp add: filterByPreferences_def)
  have nonempty: "slice0 (removeDuplicatePois2 pois) limit \<noteq> []" if "1 \<le> limit"
    by (intro slice0_nonempty that removeDuplicatePois2_nonempty assms(2))
  have whole: "slice0 (removeDuplicatePois2 pois) limit = removeDuplicatePois2 pois"
    if "int (length (removeDuplicatePois2 pois)) \<le> limit"
    using that by (simp add: slice0_def)
  have cut: "slice0 (removeDuplicatePois2 pois) limit = take (nat limit) (removeDuplicatePois2 pois)"
    if "0 \<le> limit"
    using that by (simp add: slice0_def)
  from waived none nonempty whole cut show ?thesis
    by (simp add: fetchPoisSimple_snd)
qed

text \<open>Two museums and the preference \<^verbatim>\<open>'food'\<close>: the filter is waived.\<close>

theorem preference_fail_open_witness:
  "[''food''] \<noteq> [] \<and> [cityMuseum1, cityMuseum2] \<noteq> []
   \<and> filter (preferred [''food'']) [cityMuseum1, cityMuseum2] = []
   \<and> snd (gatherPois museumWorld 40 (-75) 4) = [cityMuseum1, cityMuseum2]
   \<and> snd (fetchPoisSimple museumWorld 40 (-75) 20000 4 [''food'']) = [cityMuseum1]"
proof -
  have prefs: "[''food''] \<noteq> []" and pois: "[cityMuseum1, cityMuseum2] \<noteq> []"
    by simp_all
  have gathered: "snd (gatherPois museumWorld 40 (-75) 4) = [cityMuseum1, cityMuseum2]"
    by (simp add: gather_examples)
  from preference_fail_open [OF prefs pois museum_not_food, of museumWorld 40 "-75" 4 20000]
    gathered
  have "snd (fetchPoisSimple museumWorld 40 (-75) 20000 4 [''food''])
          = slice0 (removeDuplicatePois2 [cityMuseum1, cityMuseum2]) 4"
    by blast
  then have "snd (fetchPoisSimple museumWorld 40 (-75) 20000 4 [''food'']) = [cityMuseum1]"
    by (simp add: dedup_cityMuseum slice0_def)
  with prefs pois museum_not_food gathered show ?thesis by blast
qed

text \<open>
  C4 as stated fails: the returned list is not always the whole unfiltered input. Two
  distinct museums, the preference \<^verbatim>\<open>'food'\<close> and a limit of 1: the filter leaves
  nothing and is waived, and one POI of the two is returned. It is the first the provider
  listed, although the other is nearer: nothing is ranked.
\<close>

theorem preference_fail_open_counterexample:
  "[''food''] \<noteq> []
   \<and> snd (gatherPois galleryWorld 40 (-75) 1) = [cityMuseum1, artGallery]
   \<and> filter (preferred [''food'']) [cityMuseum1, artGallery] = []
   \<and> removeDuplicatePois2 [cityMuseum1, artGallery] = [cityMuseum1, artGallery]
   \<and> snd (fetchPoisSimple galleryWorld 40 (-75) 20000 1 [''food'']) = [cityMuseum1]
   \<and> [cityMuseum1] \<noteq> [cityMuseum1, artGallery]
   \<and> distanceMeters artGallery < distanceMeters cityMuseum1"
proof -
  have gathered: "gatherPois galleryWorld 40 (-75) 1 = ([16000], [cityMuseum1, artGallery])"
    by (simp add: gatherPois_def Let_def pushFound_def galleryWorld_def)
  have filtered: "filter (preferred [''food'']) [cityMuseum1, artGallery] = []"
    by (simp add: preferred_def matchesPreference_def cityMuseum1_def artGallery_def
        toLowerCase_def toLowerChar_def)
  have keys: "normalizedTitle cityMuseum1 \<noteq> normalizedTitle artGallery"
    by (simp add: normalizedTitle_def cityMuseum1_def artGallery_def toLowerCase_def
        toLowerChar_def trim_def isWhitespace_def)
  then have dedup: "removeDuplicatePois2 [cityMuseum1, artGallery] = [cityMuseum1, artGallery]"
    by (auto simp: removeDuplicatePois2_def Let_def)
  have waived: "filterByPreferences [''food''] [cityMuseum1, artGallery] = [cityMuseum1, artGallery]"
    using filtered by (simp add: filterByPreferences_def Let_def del: filter.simps)
  have result: "snd (fetchPoisSimple galleryWorld 40 (-75) 20000 1 [''food'']) = [cityMuseum1]"
    unfolding fetchPoisSimple_snd gathered snd_conv waived dedup by (simp add: slice0_def)
  have nearer: "distanceMeters artGallery < distanceMeters cityMuseum1"
    by (simp add: cityMuseum1_def artGallery_def)
  from gathered filtered dedup result nearer show ?thesis by simp
qed



section \<open>Properties of the route geometry\<close>

text \<open>
  The argument of the two square roots of \<^verbatim>\<open>calculateDistance\<close> lies between 0 and 1
  for all inputs, so no square root of a negative number is taken and the distance is
  never negative.
\<close>

lemma cos_product:
  fixes x y :: real
  shows "cos x * cos y = (cos ((x + y) / 2))\<^sup>2 - (sin ((y - x) / 2))\<^sup>2"
proof -
  define A where "A = (x + y) / 2"
  define B where "B = (y - x) / 2"
  have x: "x = A - B" and y: "y = A + B" by (simp_all add: A_def B_def field_simps)
  define p where "p = cos A * cos B"
  define q where "q = sin A * sin B"
  have "cos (A - B) * cos (A + B) = (p + q) * (p - q)"
    by (simp only: cos_add cos_diff p_def q_def)
  also have "\<dots> = p\<^sup>2 - q\<^sup>2"
    by (simp add: power2_eq_square algebra_simps)
  also have "\<dots> = (cos A)\<^sup>2 * (cos B)\<^sup>2 - (sin A)\<^sup>2 * (sin B)\<^sup>2"
    by (simp only: p_def q_def power_mult_distrib)
  also have "\<dots> = (cos A)\<^sup>2 * (1 - (sin B)\<^sup>2) - (1 - (cos A)\<^sup>2) * (sin B)\<^sup>2"
    by (simp only: cos_squared_eq [of B] sin_squared_eq [of A])
  also have "\<dots> = (cos A)\<^sup>2 - (sin B)\<^sup>2"
    by (simp add: algebra_simps)
  finally have "cos (A - B) * cos (A + B) = (cos A)\<^sup>2 - (sin B)\<^sup>2" .
  then show ?thesis unfolding x [symmetric] y [symmetric] unfolding A_def B_def .
qed

lemma haversine_bounds:
  fixes p1 p2 l d :: real
  assumes d: "d = (p2 - p1) / 2"
  shows "0 \<le> sin d * sin d + cos p1 * cos p2 * sin l * sin l
         \<and> sin d * sin d + cos p1 * cos p2 * sin l * sin l \<le> 1"
proof -
  define s where "s = (sin d)\<^sup>2"
  define c where "c = (cos ((p1 + p2) / 2))\<^sup>2"
  define u where "u = (sin l)\<^sup>2"
  have s: "0 \<le> s" "s \<le> 1" and c: "0 \<le> c" "c \<le> 1" and u: "0 \<le> u" "u \<le> 1"
    by (simp_all add: s_def c_def u_def abs_square_le_1)
  have "cos p1 * cos p2 = c - s"
    unfolding c_def s_def d by (rule cos_product)
  moreover have "sin d * sin d = s" "sin l * sin l = u"
    by (simp_all add: s_def u_def power2_eq_square)
  ultimately have "sin d * sin d + cos p1 * cos p2 * sin l * sin l = s + (c - s) * u"
    by (simp add: mult.assoc)
  then have a: "sin d * sin d + cos p1 * cos p2 * sin l * sin l = s * (1 - u) + c * u"
    by (simp add: algebra_simps)
  have "0 \<le> s * (1 - u)" "0 \<le> c * u"
    using s c u by simp_all
  moreover have "s * (1 - u) \<le> 1 - u" "c * u \<le> u"
    using s c u by (simp_all add: mult_left_le_one_le)
  ultimately show ?thesis unfolding a by linarith
qed

lemma atan2_nonneg: "0 \<le> y \<Longrightarrow> 0 \<le> x \<Longrightarrow> 0 \<le> atan2 y x"
  by (auto simp: atan2_def zero_le_arctan_iff)

lemma calculateDistance_nonneg: "0 \<le> calculateDistance lat1 lon1 lat2 lon2"
proof -
  define a where "a = sin ((lat2 - lat1) * pi / 180 / 2) * sin ((lat2 - lat1) * pi / 180 / 2)
            + cos (lat1 * pi / 180) * cos (lat2 * pi / 180)
              * sin ((lon2 - lon1) * pi / 180 / 2) * sin ((lon2 - lon1) * pi / 180 / 2)"
  have "(lat2 - lat1) * pi / 180 / 2 = (lat2 * pi / 180 - lat1 * pi / 180) / 2"
    by (simp add: algebra_simps diff_divide_distrib)
  from haversine_bounds [OF this] have "0 \<le> a \<and> a \<le> 1"
    unfolding a_def .
  then have "0 \<le> atan2 (sqrt a) (sqrt (1 - a))"
    by (intro atan2_nonneg) simp_all
  moreover have "calculateDistance lat1 lon1 lat2 lon2 = 6371000 * (2 * atan2 (sqrt a) (sqrt (1 - a)))"
    unfolding calculateDistance_def Let_def a_def ..
  ultimately show ?thesis by simp
qed

lemma calculateDistance_same: "calculateDistance lat1 lon1 lat1 lon1 = 0"
  by (simp add: calculateDistance_def Let_def atan2_def)

lemma sin_45_squared: "sin (pi / 4) * sin (pi / 4) = (1 / 2 :: real)"
  by (simp add: sin_45)

lemma atan2_diagonal: "atan2 (sqrt (1 / 2)) (sqrt (1 - 1 / 2)) = pi / 4"
  by (simp add: atan2_def arctan_one)

lemma calculateDistance_via:
  assumes "sin ((lat2 - lat1) * pi / 180 / 2) * sin ((lat2 - lat1) * pi / 180 / 2)
            + cos (lat1 * pi / 180) * cos (lat2 * pi / 180)
              * sin ((lon2 - lon1) * pi / 180 / 2) * sin ((lon2 - lon1) * pi / 180 / 2) = a"
  shows "calculateDistance lat1 lon1 lat2 lon2 = 6371000 * (2 * atan2 (sqrt a) (sqrt (1 - a)))"
  unfolding calculateDistance_def Let_def assms ..

lemma calculateDistance_quarter:
  "calculateDistance 0 0 0 90 = 6371000 * pi / 2"
  "calculateDistance 0 90 0 180 = 6371000 * pi / 2"
proof -
  have "(90::real) * pi / 180 / 2 = pi / 4" by simp
  then have a: "sin (90 * pi / 180 / 2) * sin (90 * pi / 180 / 2) = 1 / 2"
    using sin_45_squared by simp
  have "calculateDistance 0 0 0 90 = 6371000 * (2 * atan2 (sqrt (1 / 2)) (sqrt (1 - 1 / 2)))"
    by (rule calculateDistance_via) (use a in simp)
  then show "calculateDistance 0 0 0 90 = 6371000 * pi / 2"
    by (simp only: atan2_diagonal)
  have "calculateDistance 0 90 0 180 = 6371000 * (2 * atan2 (sqrt (1 / 2)) (sqrt (1 - 1 / 2)))"
    by (rule calculateDistance_via) (use a in simp)
  then show "calculateDistance 0 90 0 180 = 6371000 * pi / 2"
    by (simp only: atan2_diagonal)
qed

lemma length_segmentLengths: "length (segmentLengths cs) = length cs - 1"
  by (induction cs rule: segmentLengths.induct) simp_all

lemma segmentLengths_nonneg: "d \<in> set (segmentLengths cs) \<Longrightarrow> 0 \<le> d"
  by (induction cs rule: segmentLengths.induct) (auto simp: calculateDistance_nonneg)

lemma closestPointLoop_Some:
  "closestPointLoop cs t i cur = Some p \<Longrightarrow>
     \<exists>k. Suc k < length cs \<and> index p = i + k \<and> distanceFromStart p = t
         \<and> (\<forall>j<k. cur + sum_list (take (Suc j) (segmentLengths cs)) < t)
         \<and> t \<le> cur + sum_list (take (Suc k) (segmentLengths cs))
         \<and> pointLat p = interpolate (snd (cs ! k)) (snd (cs ! Suc k))
                           (segmentRatio (segmentLengths cs) cur t k)
         \<and> pointLon p = interpolate (fst (cs ! k)) (fst (cs ! Suc k))
                           (segmentRatio (segmentLengths cs) cur t k)"
proof (induction cs t i cur rule: closestPointLoop.induct)
  case (1 lon1 lat1 lon2 lat2 rest t i cur)
  let ?d = "calculateDistance lat1 lon1 lat2 lon2"
  let ?cs' = "(lon2, lat2) # rest"
  show ?case
  proof (cases "t \<le> cur + ?d")
    case True
    with "1.prems" have p: "p = \<lparr>pointLat = interpolate lat1 lat2 (if ?d = 0 then None else Some ((t - cur) / ?d)),
                    pointLon = interpolate lon1 lon2 (if ?d = 0 then None else Some ((t - cur) / ?d)),
                    distanceFromStart = t, index = i\<rparr>"
      by (simp add: Let_def)
    show ?thesis
      by (rule exI [of _ 0]) (use True p in \<open>simp add: segmentRatio_def\<close>)
  next
    case False
    with "1.prems" have "closestPointLoop ?cs' t (i + 1) (cur + ?d) = Some p"
      by (simp add: Let_def)
    from "1.IH" [OF refl _ this] False
    obtain k where k: "Suc k < length ?cs'" "index p = i + 1 + k" "distanceFromStart p = t"
      "\<forall>j<k. cur + ?d + sum_list (take (Suc j) (segmentLengths ?cs')) < t"
      "t \<le> cur + ?d + sum_list (take (Suc k) (segmentLengths ?cs'))"
      "pointLat p = interpolate (snd (?cs' ! k)) (snd (?cs' ! Suc k))
                           (segmentRatio (segmentLengths ?cs') (cur + ?d) t k)"
      "pointLon p = interpolate (fst (?cs' ! k)) (fst (?cs' ! Suc k))
                           (segmentRatio (segmentLengths ?cs') (cur + ?d) t k)"
      by auto
    have ratio: "segmentRatio (segmentLengths ((lon1, lat1) # ?cs')) cur t (Suc k)
                   = segmentRatio (segmentLengths ?cs') (cur + ?d) t k"
      by (simp add: segmentRatio_def add.assoc)
    have before: "cur + sum_list (take (Suc j) (segmentLengths ((lon1, lat1) # ?cs'))) < t"
      if "j < Suc k" for j
    proof (cases j)
      case 0
      with False show ?thesis by simp
    next
      case (Suc j')
      with that k(4) show ?thesis by (simp add: add.assoc)
    qed
    show ?thesis
      apply (rule exI [of _ "Suc k"])
      using k(1,2,3,5,6,7) before ratio
      by (simp add: add.assoc)
  qed
qed simp_all

lemma closestPointLoop_None:
  "closestPointLoop cs t i cur = None \<longleftrightarrow>
     (\<forall>k<length (segmentLengths cs). cur + sum_list (take (Suc k) (segmentLengths cs)) < t)"
proof (induction cs t i cur rule: closestPointLoop.induct)
  case (1 lon1 lat1 lon2 lat2 rest t i cur)
  let ?d = "calculateDistance lat1 lon1 lat2 lon2"
  let ?cs' = "(lon2, lat2) # rest"
  show ?case
  proof (cases "t \<le> cur + ?d")
    case True
    then show ?thesis by (auto simp: Let_def)
  next
    case False
    have "closestPointLoop ((lon1, lat1) # ?cs') t i cur = None
            \<longleftrightarrow> closestPointLoop ?cs' t (i + 1) (cur + ?d) = None"
      using False by (simp add: Let_def)
    also have "\<dots> \<longleftrightarrow> (\<forall>k<length (segmentLengths ?cs').
                  cur + ?d + sum_list (take (Suc k) (segmentLengths ?cs')) < t)"
      using "1.IH" [OF refl] False by simp
    also have "\<dots> \<longleftrightarrow> (\<forall>k<length (segmentLengths ((lon1, lat1) # ?cs')).
                  cur + sum_list (take (Suc k) (segmentLengths ((lon1, lat1) # ?cs'))) < t)"
      (is "?L \<longleftrightarrow> ?R")
    proof
      assume l: ?L
      show ?R
      proof (intro allI impI)
        fix k assume "k < length (segmentLengths ((lon1, lat1) # ?cs'))"
        then show "cur + sum_list (take (Suc k) (segmentLengths ((lon1, lat1) # ?cs'))) < t"
          using l False by (cases k) (simp_all add: add.assoc)
      qed
    next
      assume r: ?R
      show ?L
      proof (intro allI impI)
        fix k assume "k < length (segmentLengths ?cs')"
        then have "Suc k < length (segmentLengths ((lon1, lat1) # ?cs'))" by simp
        with r have "cur + sum_list (take (Suc (Suc k)) (segmentLengths ((lon1, lat1) # ?cs'))) < t"
          by blast
        then show "cur + ?d + sum_list (take (Suc k) (segmentLengths ?cs')) < t"
          by (simp add: add.assoc)
      qed
    qed
    finally show ?thesis .
  qed
qed simp_all

lemma sum_take_le:
  assumes "\<forall>d\<in>set xs. (0::real) \<le> d"
  shows "sum_list (take j xs) \<le> sum_list xs"
proof -
  have "sum_list xs = sum_list (take j xs) + sum_list (drop j xs)"
    by (metis append_take_drop_id sum_list_append)
  moreover have "0 \<le> sum_list (drop j xs)"
    using assms by (intro sum_list_nonneg) (auto dest: in_set_dropD)
  ultimately show ?thesis by simp
qed

lemma cumulative_le_length: "cumulative cs j \<le> polylineLength cs"
  unfolding cumulative_def polylineLength_def
  by (rule sum_take_le) (simp add: segmentLengths_nonneg)

lemma cumulative_nonneg: "0 \<le> cumulative cs j"
  unfolding cumulative_def
  by (rule sum_list_nonneg) (auto dest: in_set_takeD simp: segmentLengths_nonneg)

lemma cumulative_all: "length cs - 1 \<le> j \<Longrightarrow> cumulative cs j = polylineLength cs"
  by (simp add: cumulative_def polylineLength_def length_segmentLengths)

lemma cumulative_Suc:
  "Suc j < length cs \<Longrightarrow> cumulative cs (Suc j) = cumulative cs j + segmentLengths cs ! j"
  by (simp add: cumulative_def take_Suc_conv_app_nth length_segmentLengths)

lemma findClosest_None_iff:
  "findClosestPointOnRoute cs t = None \<longleftrightarrow> length cs < 2 \<or> polylineLength cs < t"
proof -
  have none: "findClosestPointOnRoute cs t = None
                \<longleftrightarrow> (\<forall>k<length cs - 1. cumulative cs (Suc k) < t)"
    by (simp add: findClosestPointOnRoute_def closestPointLoop_None cumulative_def
        length_segmentLengths)
  show ?thesis
  proof (cases "length cs < 2")
    case True
    then have "length cs - 1 = 0" by simp
    with none True show ?thesis by simp
  next
    case False
    then have last: "length cs - 2 < length cs - 1" by simp
    have all: "cumulative cs (Suc (length cs - 2)) = polylineLength cs"
      using False by (intro cumulative_all) simp
    show ?thesis
    proof
      assume "findClosestPointOnRoute cs t = None"
      with none last all show "length cs < 2 \<or> polylineLength cs < t" by metis
    next
      assume "length cs < 2 \<or> polylineLength cs < t"
      with False have "polylineLength cs < t" by simp
      then have "\<forall>k<length cs - 1. cumulative cs (Suc k) < t"
        using cumulative_le_length [of cs] by (meson le_less_trans)
      with none show "findClosestPointOnRoute cs t = None" by simp
    qed
  qed
qed

lemma findClosest_Some:
  assumes "findClosestPointOnRoute cs t = Some p"
  shows "Suc (index p) < length cs \<and> distanceFromStart p = t
         \<and> (\<forall>j<index p. cumulative cs (Suc j) < t)
         \<and> t \<le> cumulative cs (Suc (index p))
         \<and> (segmentLengths cs ! index p \<noteq> 0 \<longrightarrow>
              pointLat p = Some (snd (cs ! index p)
                  + (snd (cs ! Suc (index p)) - snd (cs ! index p))
                    * ((t - cumulative cs (index p)) / (segmentLengths cs ! index p)))
              \<and> pointLon p = Some (fst (cs ! index p)
                  + (fst (cs ! Suc (index p)) - fst (cs ! index p))
                    * ((t - cumulative cs (index p)) / (segmentLengths cs ! index p))))
         \<and> (segmentLengths cs ! index p = 0 \<longrightarrow> pointLat p = None \<and> pointLon p = None)"
proof -
  from closestPointLoop_Some [OF assms [unfolded findClosestPointOnRoute_def]]
  obtain k where k: "Suc k < length cs" "index p = k" "distanceFromStart p = t"
    "\<forall>j<k. sum_list (take (Suc j) (segmentLengths cs)) < t"
    "t \<le> sum_list (take (Suc k) (segmentLengths cs))"
    "pointLat p = interpolate (snd (cs ! k)) (snd (cs ! Suc k))
                           (segmentRatio (segmentLengths cs) 0 t k)"
    "pointLon p = interpolate (fst (cs ! k)) (fst (cs ! Suc k))
                           (segmentRatio (segmentLengths cs) 0 t k)"
    by auto
  then show ?thesis
    by (simp add: cumulative_def segmentRatio_def interpolate_def)
qed

lemma cumulative_mono: "j \<le> k \<Longrightarrow> cumulative cs j \<le> cumulative cs k"
proof -
  assume "j \<le> k"
  then have "take j (segmentLengths cs) = take j (take k (segmentLengths cs))"
    by (simp add: min_def)
  moreover have "sum_list (take j (take k (segmentLengths cs))) \<le> sum_list (take k (segmentLengths cs))"
    by (rule sum_take_le) (auto dest: in_set_takeD simp: segmentLengths_nonneg)
  ultimately show ?thesis by (simp add: cumulative_def)
qed

lemma polylineLength_nonneg: "0 \<le> polylineLength cs"
  unfolding polylineLength_def by (rule sum_list_nonneg) (simp add: segmentLengths_nonneg)

lemma routePoint_eqI:
  fixes p :: routePoint
  assumes "pointLat p = a" "pointLon p = b" "distanceFromStart p = d" "index p = i"
  shows "p = \<lparr>pointLat = a, pointLon = b, distanceFromStart = d, index = i\<rparr>"
  using assms by (cases p) simp

lemma findClosest_at_start:
  assumes len: "2 \<le> length cs" and pos: "segmentLengths cs ! 0 \<noteq> 0"
  shows "findClosestPointOnRoute cs 0
           = Some \<lparr>pointLat = Some (snd (cs ! 0)), pointLon = Some (fst (cs ! 0)),
                    distanceFromStart = 0, index = 0\<rparr>"
proof -
  have "findClosestPointOnRoute cs 0 \<noteq> None"
    using len polylineLength_nonneg [of cs] by (simp add: findClosest_None_iff)
  then obtain p where p: "findClosestPointOnRoute cs 0 = Some p" by blast
  note props = findClosest_Some [OF p]
  have "index p = 0"
  proof (rule ccontr)
    assume "index p \<noteq> 0"
    then have "0 < index p" by simp
    with props have "cumulative cs (Suc 0) < 0" by blast
    with cumulative_nonneg [of cs "Suc 0"] show False by simp
  qed
  with props pos have "pointLat p = Some (snd (cs ! 0))" "pointLon p = Some (fst (cs ! 0))"
    "distanceFromStart p = 0"
    by (simp_all add: cumulative_def)
  with \<open>index p = 0\<close> p show ?thesis by (simp add: routePoint_eqI)
qed

lemma findClosest_at_end:
  assumes len: "2 \<le> length cs" and pos: "last (segmentLengths cs) \<noteq> 0"
  shows "findClosestPointOnRoute cs (polylineLength cs)
           = Some \<lparr>pointLat = Some (snd (last cs)), pointLon = Some (fst (last cs)),
                    distanceFromStart = polylineLength cs, index = length cs - 2\<rparr>"
proof -
  let ?n = "length cs - 2"
  have n: "Suc ?n < length cs" "Suc ?n = length cs - 1" using len by simp_all
  have segs_ne: "segmentLengths cs \<noteq> []"
    using len by (metis length_segmentLengths n(2) length_0_conv nat.distinct(1))
  have last_seg: "last (segmentLengths cs) = segmentLengths cs ! ?n"
    using segs_ne by (simp add: last_conv_nth length_segmentLengths numeral_2_eq_2)
  have dpos: "0 < segmentLengths cs ! ?n"
    using pos last_seg segmentLengths_nonneg [of "segmentLengths cs ! ?n" cs] n
    by (simp add: length_segmentLengths order_less_le)
  have total: "polylineLength cs = cumulative cs ?n + segmentLengths cs ! ?n"
    using cumulative_Suc [OF n(1)] cumulative_all [of cs "Suc ?n"] n(2) by simp
  have "findClosestPointOnRoute cs (polylineLength cs) \<noteq> None"
    using len by (simp add: findClosest_None_iff)
  then obtain p where p: "findClosestPointOnRoute cs (polylineLength cs) = Some p" by blast
  note props = findClosest_Some [OF p]
  have idx: "index p = ?n"
  proof (rule ccontr)
    assume "index p \<noteq> ?n"
    moreover from props have "Suc (index p) < length cs" by blast
    ultimately have "Suc (index p) \<le> ?n" by linarith
    then have "cumulative cs (Suc (index p)) \<le> cumulative cs ?n"
      by (rule cumulative_mono)
    with props total dpos show False by simp
  qed
  have ratio: "(polylineLength cs - cumulative cs ?n) / (segmentLengths cs ! ?n) = 1"
    using total dpos by simp
  have cs_ne: "cs \<noteq> []" using len by auto
  have last_cs: "last cs = cs ! Suc ?n"
    using cs_ne n(2) by (simp add: last_conv_nth)
  from props idx dpos ratio
  have "pointLat p = Some (snd (last cs))" "pointLon p = Some (fst (last cs))"
    "distanceFromStart p = polylineLength cs"
    by (simp_all add: last_cs)
  with idx p show ?thesis by (simp add: routePoint_eqI)
qed

lemma equator_segments: "segmentLengths equator = [6371000 * pi / 2, 6371000 * pi / 2]"
  by (simp add: equator_def calculateDistance_quarter)

lemma equator_length: "polylineLength equator = 6371000 * pi"
  by (simp add: polylineLength_def equator_segments)

section \<open>Claims about the route geometry\<close>

text \<open>
  C6 (amended). For every polyline with at least two vertices:
  at target distance 0, if the first segment has non-zero length, the first vertex is
  returned; at a target equal to the summed length of the segments, if the last segment
  has non-zero length, the last vertex is returned; at any target greater than the
  summed length \<^verbatim>\<open>null\<close> is returned; and at any target up to the summed length the
  result lies on the first segment \<open>i\<close> whose end is at or beyond the target, with
  coordinates \<open>lat\<^sub>i + (lat\<^sub>i\<^sub>+\<^sub>1 - lat\<^sub>i) \<times> ratio\<close> and
  \<open>lon\<^sub>i + (lon\<^sub>i\<^sub>+\<^sub>1 - lon\<^sub>i) \<times> ratio\<close> for
  \<open>ratio = (t - cumulative\<^sub>i) / d\<^sub>i\<close> whenever \<open>d\<^sub>i\<close> is not zero.
\<close>

theorem closest_point_on_route:
  assumes "2 \<le> length coordinates"
  shows "(segmentLengths coordinates ! 0 \<noteq> 0 \<longrightarrow>
            findClosestPointOnRoute coordinates 0
              = Some \<lparr>pointLat = Some (snd (coordinates ! 0)),
                       pointLon = Some (fst (coordinates ! 0)),
                       distanceFromStart = 0, index = 0\<rparr>)
         \<and> (last (segmentLengths coordinates) \<noteq> 0 \<longrightarrow>
            findClosestPointOnRoute coordinates (polylineLength coordinates)
              = Some \<lparr>pointLat = Some (snd (last coordinates)),
                       pointLon = Some (fst (last coordinates)),
                       distanceFromStart = polylineLength coordinates,
                       index = length coordinates - 2\<rparr>)
         \<and> (polylineLength coordinates < t \<longrightarrow> findClosestPointOnRoute coordinates t = None)
         \<and> (t \<le> polylineLength coordinates \<longrightarrow>
              (\<exists>p i. findClosestPointOnRoute coordinates t = Some p
                 \<and> index p = i \<and> Suc i < length coordinates \<and> distanceFromStart p = t
                 \<and> (\<forall>j<i. cumulative coordinates (Suc j) < t)
                 \<and> t \<le> cumulative coordinates (Suc i)
                 \<and> (segmentLengths coordinates ! i \<noteq> 0 \<longrightarrow>
                      pointLat p = Some (snd (coordinates ! i)
                          + (snd (coordinates ! Suc i) - snd (coordinates ! i))
                            * ((t - cumulative coordinates i) / (segmentLengths coordinates ! i)))
                      \<and> pointLon p = Some (fst (coordinates ! i)
                          + (fst (coordinates ! Suc i) - fst (coordinates ! i))
                            * ((t - cumulative coordinates i) / (segmentLengths coordinates ! i))))))"
proof (intro conjI impI)
  assume "segmentLengths coordinates ! 0 \<noteq> 0"
  with assms show "findClosestPointOnRoute coordinates 0
              = Some \<lparr>pointLat = Some (snd (coordinates ! 0)),
                       pointLon = Some (fst (coordinates ! 0)),
                       distanceFromStart = 0, index = 0\<rparr>"
    by (rule findClosest_at_start)
next
  assume "last (segmentLengths coordinates) \<noteq> 0"
  with assms show "findClosestPointOnRoute coordinates (polylineLength coordinates)
              = Some \<lparr>pointLat = Some (snd (last coordinates)),
                       pointLon = Some (fst (last coordinates)),
                       distanceFromStart = polylineLength coordinates,
                       index = length coordinates - 2\<rparr>"
    by (rule findClosest_at_end)
next
  assume "polylineLength coordinates < t"
  then show "findClosestPointOnRoute coordinates t = None"
    by (simp add: findClosest_None_iff)
next
  assume "t \<le> polylineLength coordinates"
  with assms have "findClosestPointOnRoute coordinates t \<noteq> None"
    by (simp add: findClosest_None_iff)
  then obtain p where p: "findClosestPointOnRoute coordinates t = Some p" by blast
  from findClosest_Some [OF p] p
  show "\<exists>p i. findClosestPointOnRoute coordinates t = Some p
                 \<and> index p = i \<and> Suc i < length coordinates \<and> distanceFromStart p = t
                 \<and> (\<forall>j<i. cumulative coordinates (Suc j) < t)
                 \<and> t \<le> cumulative coordinates (Suc i)
                 \<and> (segmentLengths coordinates ! i \<noteq> 0 \<longrightarrow>
                      pointLat p = Some (snd (coordinates ! i)
                          + (snd (coordinates ! Suc i) - snd (coordinates ! i))
                            * ((t - cumulative coordinates i) / (segmentLengths coordinates ! i)))
                      \<and> pointLon p = Some (fst (coordinates ! i)
                          + (fst (coordinates ! Suc i) - fst (coordinates ! i))
                            * ((t - cumulative coordinates i) / (segmentLengths coordinates ! i))))"
    by blast
qed

text \<open>
  On the equator polyline: the first vertex at 0, the last vertex at the full length,
  and \<^verbatim>\<open>null\<close> at 30000 km, which is beyond the end.
\<close>

theorem closest_point_on_route_witness:
  "2 \<le> length equator
   \<and> segmentLengths equator ! 0 \<noteq> 0 \<and> last (segmentLengths equator) \<noteq> 0
   \<and> findClosestPointOnRoute equator 0
       = Some \<lparr>pointLat = Some 0, pointLon = Some 0, distanceFromStart = 0, index = 0\<rparr>
   \<and> findClosestPointOnRoute equator (6371000 * pi)
       = Some \<lparr>pointLat = Some 0, pointLon = Some 180, distanceFromStart = 6371000 * pi,
                index = 1\<rparr>
   \<and> polylineLength equator < 30000000
   \<and> findClosestPointOnRoute equator 30000000 = None"
proof -
  have len: "2 \<le> length equator" by (simp add: equator_def)
  have first: "segmentLengths equator ! 0 \<noteq> 0" and final: "last (segmentLengths equator) \<noteq> 0"
    by (simp_all add: equator_segments)
  have short: "polylineLength equator < 30000000"
    using pi_less_4 by (simp add: equator_length)
  note t = closest_point_on_route [OF len, of 30000000]
  from t first have "findClosestPointOnRoute equator 0
       = Some \<lparr>pointLat = Some 0, pointLon = Some 0, distanceFromStart = 0, index = 0\<rparr>"
    by (simp add: equator_def)
  moreover from t final have "findClosestPointOnRoute equator (6371000 * pi)
       = Some \<lparr>pointLat = Some 0, pointLon = Some 180, distanceFromStart = 6371000 * pi,
                index = 1\<rparr>"
    by (simp add: equator_length) (simp add: equator_def)
  moreover from t short have "findClosestPointOnRoute equator 30000000 = None"
    by blast
  ultimately show ?thesis using len first final short by blast
qed

text \<open>
  C6 as stated fails: a target distance at or beyond the total distance does not always
  return the last vertex. At 30000 km on the equator polyline, which is about 20015 km
  long, the loop ends without a match and \<^verbatim>\<open>null\<close> is returned.
\<close>

theorem closest_point_beyond_end_counterexample:
  "2 \<le> length equator \<and> polylineLength equator \<le> 30000000
   \<and> findClosestPointOnRoute equator 30000000 = None"
proof -
  have "polylineLength equator < 30000000"
    using pi_less_4 by (simp add: equator_length)
  then show ?thesis
    by (simp add: findClosest_None_iff) (simp add: equator_def)
qed

text \<open>
  Outside C6 as amended: when the first two vertices coincide, a target distance of 0
  divides 0 by 0 and the returned coordinates are not finite numbers.
\<close>

lemma degenerate_first_segment:
  "findClosestPointOnRoute [(0, 0), (0, 0), (1, 1)] 0
     = Some \<lparr>pointLat = None, pointLon = None, distanceFromStart = 0, index = 0\<rparr>"
  by (simp add: findClosestPointOnRoute_def calculateDistance_same interpolate_def)

section \<open>Properties of the sampler and of the itinerary\<close>

lemma jsPlus_Some [simp]: "jsPlus (Some x) (Some y) = Some (x + y)"
  by (simp add: jsPlus_def)

lemma jsPlus_None [simp]: "jsPlus None b = None" "jsPlus a None = None"
  by (simp_all add: jsPlus_def split: option.splits)

lemma foldl_jsPlus_Some:
  assumes "\<forall>x\<in>set xs. f x \<noteq> None"
  shows "foldl (\<lambda>acc x. jsPlus acc (f x)) (Some a) xs
           = Some (a + sum_list (map (\<lambda>x. the (f x)) xs))"
  using assms
proof (induction xs arbitrary: a)
  case Nil
  show ?case by simp
next
  case (Cons x xs)
  then obtain y where y: "f x = Some y" by auto
  from Cons.prems have "\<forall>x\<in>set xs. f x \<noteq> None" by simp
  from Cons.IH [OF this, of "a + y"] y show ?case by (simp add: add.assoc)
qed

lemma foldl_jsPlus_from_None: "foldl (\<lambda>acc x. jsPlus acc (f x)) None xs = None"
  by (induction xs) simp_all

lemma foldl_jsPlus_None:
  assumes "\<exists>x\<in>set xs. f x = None"
  shows "foldl (\<lambda>acc x. jsPlus acc (f x)) acc xs = None"
  using assms
proof (induction xs arbitrary: acc)
  case Nil
  then show ?case by simp
next
  case (Cons x xs)
  show ?case
  proof (cases "f x = None")
    case True
    then show ?thesis by (simp add: foldl_jsPlus_from_None)
  next
    case False
    with Cons.prems have "\<exists>x\<in>set xs. f x = None" by auto
    from Cons.IH [OF this] show ?thesis by simp
  qed
qed

lemma totalActivityTimeOf_sum:
  assumes "\<forall>a\<in>set (concat (map attractions stops)). activityTime estimates (category a) \<noteq> None"
  shows "totalActivityTimeOf estimates stops
     = Some (sum_list (map (\<lambda>a. the (activityTime estimates (category a)))
               (concat (map attractions stops))))"
proof -
  let ?t = "\<lambda>a. activityTime estimates (category a)"
  let ?stopTotal = "\<lambda>s. foldl (\<lambda>stopTotal a. jsPlus stopTotal (?t a)) (Some 0) (attractions s)"
  have inner: "?stopTotal s = Some (sum_list (map (\<lambda>a. the (?t a)) (attractions s)))"
    if "s \<in> set stops" for s
    using foldl_jsPlus_Some [of "attractions s" ?t 0] assms that by auto
  then have "\<forall>s\<in>set stops. ?stopTotal s \<noteq> None" by simp
  then have "totalActivityTimeOf estimates stops
          = Some (0 + sum_list (map (\<lambda>s. the (?stopTotal s)) stops))"
    unfolding totalActivityTimeOf_def by (rule foldl_jsPlus_Some)
  also have "map (\<lambda>s. the (?stopTotal s)) stops
               = map (\<lambda>s. sum_list (map (\<lambda>a. the (?t a)) (attractions s))) stops"
    using inner by simp
  also have "sum_list (map (\<lambda>s. sum_list (map (\<lambda>a. the (?t a)) (attractions s))) stops)
               = sum_list (map (\<lambda>a. the (?t a)) (concat (map attractions stops)))"
    by (induction stops) simp_all
  finally show ?thesis by simp
qed

lemma totalActivityTimeOf_None:
  assumes "\<exists>a\<in>set (concat (map attractions stops)). activityTime estimates (category a) = None"
  shows "totalActivityTimeOf estimates stops = None"
proof -
  let ?t = "\<lambda>a. activityTime estimates (category a)"
  from assms obtain s a where s: "s \<in> set stops" and a: "a \<in> set (attractions s)" "?t a = None"
    by auto
  then have "foldl (\<lambda>stopTotal a. jsPlus stopTotal (?t a)) (Some 0) (attractions s) = None"
    by (intro foldl_jsPlus_None) auto
  with s show ?thesis
    unfolding totalActivityTimeOf_def by (intro foldl_jsPlus_None) auto
qed

lemma activityTime_None_iff:
  "activityTime estimates c = None \<longleftrightarrow> estimates c = None \<and> c \<in> set objectPrototypeKeys"
  by (simp add: activityTime_def split: option.splits)



lemma table_keys:
  "dom ACTIVITY_TIME_ESTIMATES =
     set [''Museum'', ''Zoo/Aquarium'', ''Historic Site'', ''Historic Building'',
          ''Entertainment'', ''Nature'', ''Outdoor'', ''Cultural'', ''Food & Drink'',
          ''Family'', ''Adventure'', ''Park'', ''Attraction'']"
  "dom ACTIVITY_TIME_ESTIMATES_config =
     set [''Museum'', ''Zoo/Aquarium'', ''Park'', ''Historic Site'', ''Restaurant'',
          ''Scenic View'', ''Entertainment'', ''Outdoor Activity'', ''Cultural Site'',
          ''Food & Drink'', ''Family Activity'', ''Adventure'', ''Attraction'']"
  unfolding ACTIVITY_TIME_ESTIMATES_def ACTIVITY_TIME_ESTIMATES_config_def
    dom_map_of_conv_image_fst
  by simp_all


lemma categorizePoi2_in_table: "categorizePoi2 t \<in> dom ACTIVITY_TIME_ESTIMATES"
  unfolding table_keys by (simp add: categorizePoi2_def Let_def)

lemma assignedCategory_in_table:
  assumes "assignedCategory a"
  shows "category a \<in> dom ACTIVITY_TIME_ESTIMATES"
proof -
  from assms consider
    "category a = categorizePoi2 (title a)"
    | "category a \<in> set [''Park'', ''Historic Site'', ''Food & Drink'']"
    | "category a \<in> set [''Outdoor'', ''Cultural'', ''Entertainment'', ''Food & Drink'',
                           ''Family'', ''Adventure'']"
    unfolding assignedCategory_def by blast
  then show ?thesis
  proof cases
    case 1
    then show ?thesis by (simp only: categorizePoi2_in_table)
  next
    case 2
    then show ?thesis unfolding table_keys by auto
  next
    case 3
    then show ?thesis unfolding table_keys by auto
  qed
qed




lemma planDay_total:
  "totalActivityTime (planDay sv estimates config i sel rs d)
     = totalActivityTimeOf estimates (dayRoadsideStopsOf config i rs d)"
  by (simp add: planDay_def Let_def)

lemma planDay_roadsideStops:
  "roadsideStops (planDay sv estimates config i sel rs d)
     = (if withinBudget (totalActivityTimeOf estimates (dayRoadsideStopsOf config i rs d))
             (maxDailyDrivingHours config * 0.6)
        then dayRoadsideStopsOf config i rs d
        else slice0 (dayRoadsideStopsOf config i rs d)
               \<lfloor>of_int (maxRoadsideStops config) * (0.7 :: real)\<rfloor>)"
  by (simp add: planDay_def Let_def)

lemma dayOne: "dayRoadsideStopsOf balanced 100000 dayOneStops 1 = take 3 dayOneStops"
  by (simp add: dayRoadsideStopsOf_def Let_def balanced_def dayOneStops_def roadsideAt_def slice0_def)

lemma dayTwo: "dayRoadsideStopsOf balanced 100000 dayOneStops 2 = drop 3 dayOneStops"
  by (simp add: dayRoadsideStopsOf_def Let_def balanced_def dayOneStops_def roadsideAt_def slice0_def)

lemma dayOne_hours:
  "totalActivityTimeOf ACTIVITY_TIME_ESTIMATES (take 3 dayOneStops) = Some 5"
  by (simp add: totalActivityTimeOf_def dayOneStops_def roadsideAt_def attractionOf_def
      activityTime_def ACTIVITY_TIME_ESTIMATES_def)



lemma default_hour:
  "estimates c = None \<Longrightarrow> c \<notin> set objectPrototypeKeys \<Longrightarrow> activityTime estimates c = Some 1"
  "estimates c = Some 0 \<Longrightarrow> activityTime estimates c = Some 1"
  by (simp_all add: activityTime_def)

lemma inherited_property_example:
  "activityTime ACTIVITY_TIME_ESTIMATES ''constructor'' = None"
  "activityTime ACTIVITY_TIME_ESTIMATES_config ''toString'' = None"
  by (simp_all add: activityTime_def ACTIVITY_TIME_ESTIMATES_def ACTIVITY_TIME_ESTIMATES_config_def
      objectPrototypeKeys_def)

lemma inherited_property_not_assigned:
  "assignedCategory a \<Longrightarrow> category a \<notin> set objectPrototypeKeys"
proof -
  assume "assignedCategory a"
  then have "category a \<in> dom ACTIVITY_TIME_ESTIMATES" by (rule assignedCategory_in_table)
  then show ?thesis
    unfolding table_keys by (auto simp: objectPrototypeKeys_def)
qed

lemma overnightSample_candidates:
  assumes "\<forall>p. findClosestPointOnRoute (geometryCoordinates route) (distance route / 20 * real i) = Some p
             \<longrightarrow> (available sv1 config p \<longleftrightarrow> available sv2 config p)"
    and "map candidate acc1 = map candidate acc2"
  shows "map candidate (overnightSample sv1 route config i acc1)
           = map candidate (overnightSample sv2 route config i acc2)"
proof (cases "findClosestPointOnRoute (geometryCoordinates route) (distance route / 20 * real i)")
  case None
  with assms(2) show ?thesis by (simp add: overnightSample_def)
next
  case (Some p)
  with assms(1) have "available sv1 config p \<longleftrightarrow> available sv2 config p" by blast
  with Some assms(2) show ?thesis
    by (simp add: overnightSample_def Let_def available_def candidate_def)
qed

lemma fold_overnightSample_candidates:
  assumes "\<forall>i\<in>set is. \<forall>p.
             findClosestPointOnRoute (geometryCoordinates route) (distance route / 20 * real i) = Some p
             \<longrightarrow> (available sv1 config p \<longleftrightarrow> available sv2 config p)"
    and "map candidate acc1 = map candidate acc2"
  shows "map candidate (fold (overnightSample sv1 route config) is acc1)
           = map candidate (fold (overnightSample sv2 route config) is acc2)"
  using assms
proof (induction "is" arbitrary: acc1 acc2)
  case Nil
  then show ?case by simp
next
  case (Cons i "is")
  have "map candidate (overnightSample sv1 route config i acc1)
          = map candidate (overnightSample sv2 route config i acc2)"
    using Cons.prems by (intro overnightSample_candidates) simp_all
  with Cons.IH [of "overnightSample sv1 route config i acc1" "overnightSample sv2 route config i acc2"]
    Cons.prems(1)
  show ?case by simp
qed

lemma overnightSample_length:
  assumes "findClosestPointOnRoute (geometryCoordinates route) (distance route / 20 * real i) \<noteq> None"
    and "\<forall>p. available sv config p"
  shows "length (overnightSample sv route config i acc) = Suc (length acc)"
  using assms by (auto simp: overnightSample_def Let_def available_def)

lemma fold_overnightSample_length:
  assumes "\<forall>i\<in>set is. findClosestPointOnRoute (geometryCoordinates route) (distance route / 20 * real i) \<noteq> None"
    and "\<forall>p. available sv config p"
  shows "length (fold (overnightSample sv route config) is acc) = length acc + length is"
  using assms(1)
proof (induction "is" arbitrary: acc)
  case Nil
  show ?case by simp
next
  case (Cons i "is")
  then show ?case
    by (simp add: overnightSample_length [OF _ assms(2)])
qed

section \<open>Claims about the itinerary and the sampler\<close>

text \<open>
  C7. With \<open>maxActivityTime = maxDailyDrivingHours \<times> 0.6\<close>: when the activity
  hours of a day exceed it, the day's roadside stops are cut by
  \<^verbatim>\<open>slice(0, Math.floor(maxRoadsideStops * 0.7))\<close>, which for a non-negative
  \<^verbatim>\<open>maxRoadsideStops\<close> leaves that many entries or all of them if there are fewer;
  otherwise the day's list, already capped at \<^verbatim>\<open>maxRoadsideStops\<close>, is kept whole.
  The activity hours are a number as soon as no category of the day names a property
  inherited from \<^verbatim>\<open>Object.prototype\<close>; a total that is not a number fails the
  comparison \<^verbatim>\<open>totalActivityTime <= maxActivityTime\<close>, and the list is cut as well.
\<close>

theorem budget_truncation:
  "(totalActivityTime (planDay sv estimates config i sel rs d) = Some hours
      \<and> maxDailyDrivingHours config * 0.6 < hours \<longrightarrow>
      roadsideStops (planDay sv estimates config i sel rs d)
        = slice0 (dayRoadsideStopsOf config i rs d) \<lfloor>of_int (maxRoadsideStops config) * (0.7 :: real)\<rfloor>
      \<and> (0 \<le> maxRoadsideStops config \<longrightarrow>
           length (roadsideStops (planDay sv estimates config i sel rs d))
             = min (length (dayRoadsideStopsOf config i rs d))
                   (nat \<lfloor>of_int (maxRoadsideStops config) * (0.7 :: real)\<rfloor>)))
   \<and> (totalActivityTime (planDay sv estimates config i sel rs d) = None \<longrightarrow>
      roadsideStops (planDay sv estimates config i sel rs d)
        = slice0 (dayRoadsideStopsOf config i rs d) \<lfloor>of_int (maxRoadsideStops config) * (0.7 :: real)\<rfloor>)
   \<and> (totalActivityTime (planDay sv estimates config i sel rs d) = Some hours
      \<and> hours \<le> maxDailyDrivingHours config * 0.6 \<longrightarrow>
      roadsideStops (planDay sv estimates config i sel rs d) = dayRoadsideStopsOf config i rs d)
   \<and> ((\<forall>s\<in>set (dayRoadsideStopsOf config i rs d). \<forall>a\<in>set (attractions s).
          category a \<notin> set objectPrototypeKeys) \<longrightarrow>
      totalActivityTime (planDay sv estimates config i sel rs d) \<noteq> None)"
proof -
  have floor_nonneg: "0 \<le> \<lfloor>of_int (maxRoadsideStops config) * (0.7 :: real)\<rfloor>"
    if "0 \<le> maxRoadsideStops config"
    using that by simp
  have number: "totalActivityTimeOf estimates (dayRoadsideStopsOf config i rs d) \<noteq> None"
    if "\<forall>s\<in>set (dayRoadsideStopsOf config i rs d). \<forall>a\<in>set (attractions s).
          category a \<notin> set objectPrototypeKeys"
  proof -
    from that have "\<forall>a\<in>set (concat (map attractions (dayRoadsideStopsOf config i rs d))).
                      activityTime estimates (category a) \<noteq> None"
      by (auto simp: activityTime_None_iff)
    from totalActivityTimeOf_sum [OF this] show ?thesis by simp
  qed
  show ?thesis
    using floor_nonneg number
    by (auto simp: planDay_total planDay_roadsideStops withinBudget_def slice0_def min_def)
qed

text \<open>
  Three stops worth 5 hours against a pace of 6 driving hours (a budget of 3.6 hours)
  and 3 roadside stops: the list is cut to \<open>\<lfloor>3 \<times> 0.7\<rfloor> = 2\<close> entries.
\<close>

theorem budget_truncation_witness:
  "totalActivityTime (planDay quietServices ACTIVITY_TIME_ESTIMATES balanced 100000 [stopA] dayOneStops 1)
     = Some 5
   \<and> maxDailyDrivingHours balanced * 0.6 = 3.6
   \<and> \<lfloor>of_int (maxRoadsideStops balanced) * (0.7 :: real)\<rfloor> = 2
   \<and> roadsideStops (planDay quietServices ACTIVITY_TIME_ESTIMATES balanced 100000 [stopA] dayOneStops 1)
       = take 2 dayOneStops"
proof -
  have total: "totalActivityTime (planDay quietServices ACTIVITY_TIME_ESTIMATES balanced 100000 [stopA] dayOneStops 1) = Some 5"
    by (simp add: planDay_total dayOne dayOne_hours)
  have budget: "maxDailyDrivingHours balanced * 0.6 = 3.6"
    by (simp add: balanced_def)
  have fl: "\<lfloor>of_int (maxRoadsideStops balanced) * (0.7 :: real)\<rfloor> = 2"
    by (simp add: balanced_def)
  from budget_truncation [of quietServices ACTIVITY_TIME_ESTIMATES balanced 100000 "[stopA]" dayOneStops 1 5]
    total budget
  have "roadsideStops (planDay quietServices ACTIVITY_TIME_ESTIMATES balanced 100000 [stopA] dayOneStops 1)
          = slice0 (dayRoadsideStopsOf balanced 100000 dayOneStops 1)
              \<lfloor>of_int (maxRoadsideStops balanced) * (0.7 :: real)\<rfloor>"
    by simp
  then have "roadsideStops (planDay quietServices ACTIVITY_TIME_ESTIMATES balanced 100000 [stopA] dayOneStops 1)
          = take 2 dayOneStops"
    unfolding fl dayOne by (simp add: slice0_def)
  with total budget fl show ?thesis by blast
qed


text \<open>
  C9. The sampler reads no clock and no random number; the only thing outside its
  arguments that it reads is the answer of the accommodation search and of the reverse
  geocoder. Two runs on the same route and configuration yield the same candidate
  sequence (same points, same order, same \<^verbatim>\<open>distanceFromStart\<close>, same segment index)
  whenever the two runs agree, at every sampled point, on whether accommodation was
  found there; in particular when the services answer identically.
\<close>

theorem sampling_deterministic:
  assumes "\<forall>i\<in>{1..20}. \<forall>p.
             findClosestPointOnRoute (geometryCoordinates route) (distance route / 20 * real i) = Some p
             \<longrightarrow> (available sv1 config p \<longleftrightarrow> available sv2 config p)"
  shows "map candidate (findOvernightStops sv1 route config)
           = map candidate (findOvernightStops sv2 route config)"
proof -
  have "set [1..<21] = {1..20::nat}" by auto
  with assms show ?thesis
    unfolding findOvernightStops_def
    by (intro fold_overnightSample_candidates) simp_all
qed

text \<open>
  Two runs along the equator with services that agree only on the presence of
  accommodation: all 20 samples become candidates, identical in both runs.
\<close>

theorem sampling_deterministic_witness:
  "findNearbyAccommodations innServices (Some 0) (Some 0) 8000
     \<noteq> findNearbyAccommodations twoInnServices (Some 0) (Some 0) 8000
   \<and> length (findOvernightStops innServices equatorRoute balanced) = 20
   \<and> map candidate (findOvernightStops innServices equatorRoute balanced)
       = map candidate (findOvernightStops twoInnServices equatorRoute balanced)"
proof -
  have differ: "findNearbyAccommodations innServices (Some 0) (Some 0) 8000
                  \<noteq> findNearbyAccommodations twoInnServices (Some 0) (Some 0) 8000"
    by (simp add: innServices_def twoInnServices_def)
  have avail: "available innServices balanced p" "available twoInnServices balanced p" for p
    by (simp_all add: available_def innServices_def twoInnServices_def)
  have long: "12000000 \<le> polylineLength equator"
    using pi_ge_two by (simp add: equator_length)
  have found: "findClosestPointOnRoute (geometryCoordinates equatorRoute)
                 (distance equatorRoute / 20 * real i) \<noteq> None" if "i \<in> set [1..<21]" for i
  proof -
    from that have "real i \<le> 20" by simp
    then have "distance equatorRoute / 20 * real i \<le> 12000000"
      by (simp add: equatorRoute_def)
    with long have "\<not> polylineLength equator < distance equatorRoute / 20 * real i"
      by linarith
    then show ?thesis
      by (simp add: findClosest_None_iff equatorRoute_def) (simp add: equator_def)
  qed
  have "length (findOvernightStops innServices equatorRoute balanced) = 20"
    unfolding findOvernightStops_def
    using fold_overnightSample_length [of "[1..<21]" equatorRoute innServices balanced "[]"]
      found avail(1)
    by simp
  moreover have "map candidate (findOvernightStops innServices equatorRoute balanced)
       = map candidate (findOvernightStops twoInnServices equatorRoute balanced)"
    by (rule sampling_deterministic) (simp add: avail)
  ultimately show ?thesis using differ by blast
qed
end
